theory Spec2Isabelle
  imports Main
begin

section \<open>Data model\<close>

text \<open>
  The scheduled-publication engine of EchoSphere: \<^verbatim>\<open>src/server/services/scheduler.js\<close>
  (class \<^verbatim>\<open>SchedulerService\<close>), the content limits of
  \<^verbatim>\<open>socialMediaService\<close> and the update and delete handlers of
  \<^verbatim>\<open>src/server/routes/posts.js\<close>.

  Times are milliseconds since the epoch (JavaScript \<^verbatim>\<open>Date\<close> values), document ids
  are natural numbers, and \<^verbatim>\<open>status\<close> is a string, as in the source.
\<close>

text \<open>A thrown JavaScript \<^verbatim>\<open>Error\<close>: its \<^verbatim>\<open>message\<close> and its optional \<^verbatim>\<open>code\<close>.\<close>

record js_error =
  message :: string
  code :: "string option"

definition Error :: "string \<Rightarrow> js_error" where
  "Error m = \<lparr>message = m, code = None\<rparr>"

text \<open>
  A Connected Account, \<^verbatim>\<open>user.connectedAccounts[platform]\<close>, and a user document,
  whose \<^verbatim>\<open>connectedAccounts\<close> object maps the connected platforms to their account; a
  platform that was never connected or was disconnected has no entry.
\<close>

record account_info =
  accessToken :: string
  username :: string

record user =
  connectedAccounts :: "string \<rightharpoonup> account_info"

text \<open>\<^verbatim>\<open>post.content\<close>; the field \<^verbatim>\<open>text\<close> is named \<open>body\<close> here.\<close>

record post_content =
  body :: string
  hashtags :: "string list"
  mentions :: "string list"

text \<open>The object handed to the publisher (scheduler.js, lines 148-153).\<close>

record publish_content =
  pc_text :: string
  pc_hashtags :: "string list"
  pc_mentions :: "string list"
  pc_media :: "string list"

text \<open>What a publisher returns: \<^verbatim>\<open>{postId, url, platform}\<close>.\<close>

record publish_response =
  resp_postId :: string
  resp_url :: string
  resp_platform :: string

text \<open>A Platform Result, one element of \<^verbatim>\<open>post.results\<close> (lines 88-94 and 105-110).\<close>

record platform_result =
  platform :: string
  postId :: "string option"
  url :: "string option"
  success :: bool
  error :: "string option"
  postedAt :: int

record post =
  post_id :: nat
  userId :: nat
  content :: post_content
  media :: "string list"
  platforms :: "string list"
  scheduledAt :: int
  status :: string
  retryCount :: int
  lastAttempt :: "int option"
  results :: "platform_result list"

text \<open>A \<^verbatim>\<open>SchedulerLog\<close> document (lines 161-176).\<close>

record scheduler_log =
  log_postId :: nat
  log_platform :: string
  log_status :: string
  scheduledTime :: int
  executedTime :: int
  log_response :: "(nat \<times> publish_response) option"
  log_error :: "(string \<times> string) option"

text \<open>
  The lines written to the console, one constructor per \<^verbatim>\<open>console.log\<close> or
  \<^verbatim>\<open>console.error\<close> call of the modelled code, with the values it interpolates.
\<close>

datatype console_msg =
    SchedulerAlreadyRunning
  | SchedulerStarted
  | SchedulerStopped
  | FoundPosts nat
  | ErrorProcessing js_error
  | PublishingPost nat "string list"
  | SuccessfullyPosted string
  | FailedToPost string string
  | SchedulingRetry int nat
  | FailedToSaveLog js_error
  | UpdatePostError js_error
  | DeletePostError js_error

text \<open>
  The state the code reads and writes: the Post collection (by \<^verbatim>\<open>_id\<close>), the User
  collection, the SchedulerLog collection, the console, the calls made to the publishers,
  the two fields of the \<^verbatim>\<open>SchedulerService\<close> singleton, the tasks registered with the
  cron library, and \<open>calls\<close>, the number of interactions with the outside (clock reads,
  store and publisher calls) so far, which indexes the environment's answers.
\<close>

record world =
  posts :: "nat \<rightharpoonup> post"
  users :: "nat \<rightharpoonup> user"
  schedulerLogs :: "scheduler_log list"
  console :: "console_msg list"
  publisherCalls :: "(string \<times> account_info \<times> publish_content) list"
  isRunning :: bool
  cronJob :: "nat option"
  cronTasks :: "nat list"
  cronFresh :: nat
  calls :: nat

text \<open>
  The environment: what the outside answers at the \<open>k\<close>-th interaction. \<open>clock\<close> is the
  system time; \<open>publisher\<close> is the remote platform behind \<^verbatim>\<open>publishToTwitter\<close>,
  \<^verbatim>\<open>publishToLinkedIn\<close> and \<^verbatim>\<open>publishToInstagram\<close> (each returns a response object
  or throws an \<^verbatim>\<open>Error\<close>);
  \<open>log_save_error\<close>, \<open>post_save_error\<close> and \<open>post_find_error\<close> say whether a write to
  the SchedulerLog collection, a write to the Post collection or a query on it fails;
  \<open>cursor\<close> is the sequence of ids the store walks through when it answers a query;
  \<open>isISO8601\<close> and \<open>parseDate\<close> are the date check of express-validator and
  \<^verbatim>\<open>new Date(string)\<close>.
\<close>

record env =
  clock :: "nat \<Rightarrow> int"
  publisher :: "nat \<Rightarrow> string \<Rightarrow> account_info \<Rightarrow> publish_content \<Rightarrow> js_error + publish_response"
  log_save_error :: "nat \<Rightarrow> js_error option"
  post_save_error :: "nat \<Rightarrow> js_error option"
  post_find_error :: "nat \<Rightarrow> js_error option"
  cursor :: "nat \<Rightarrow> nat list"
  isISO8601 :: "string \<Rightarrow> bool"
  parseDate :: "string \<Rightarrow> int"

section \<open>Primitive effects\<close>

definition tick :: "world \<Rightarrow> world" where
  "tick w = w\<lparr>calls := Suc (calls w)\<rparr>"

text \<open>\<^verbatim>\<open>new Date()\<close> and \<^verbatim>\<open>Date.now()\<close>: read the clock.\<close>

definition new_Date :: "env \<Rightarrow> world \<Rightarrow> int \<times> world" where
  "new_Date e w = (clock e (calls w), tick w)"

definition console_log :: "console_msg \<Rightarrow> world \<Rightarrow> world" where
  "console_log m w = w\<lparr>console := console w @ [m]\<rparr>"

text \<open>\<^verbatim>\<open>await post.save()\<close>: the document replaces the stored one, or the write throws.\<close>

definition Post_save :: "env \<Rightarrow> post \<Rightarrow> world \<Rightarrow> js_error option \<times> world" where
  "Post_save e p w =
     (case post_save_error e (calls w) of
        Some err \<Rightarrow> (Some err, tick w)
      | None \<Rightarrow> (None, tick (w\<lparr>posts := (posts w)(post_id p \<mapsto> p)\<rparr>)))"

section \<open>socialMediaService: content limits\<close>

record limits =
  textLimit :: "nat option"
  mediaLimit :: "nat option"
  hashtagLimit :: "nat option"

text \<open>
  \<^verbatim>\<open>getPlatformLimits\<close>: \<^verbatim>\<open>limits[platform] || {}\<close>. Outside the three keys the result has
  none of the three properties the caller reads.
\<close>

definition getPlatformLimits :: "string \<Rightarrow> limits" where
  "getPlatformLimits p =
     (if p = ''twitter'' then \<lparr>textLimit = Some 280, mediaLimit = Some 4, hashtagLimit = Some 2\<rparr>
      else if p = ''linkedin'' then \<lparr>textLimit = Some 3000, mediaLimit = Some 1, hashtagLimit = Some 5\<rparr>
      else if p = ''instagram'' then \<lparr>textLimit = Some 2200, mediaLimit = Some 10, hashtagLimit = Some 30\<rparr>
      else \<lparr>textLimit = None, mediaLimit = None, hashtagLimit = None\<rparr>)"

text \<open>Decimal rendering of a number inside a template string.\<close>

fun show_nat :: "nat \<Rightarrow> string" where
  "show_nat n =
     (if n < 10 then [''0123456789'' ! n]
      else show_nat (n div 10) @ [''0123456789'' ! (n mod 10)])"

declare show_nat.simps [simp del]

text \<open>
  The \<^verbatim>\<open>content\<close> argument of \<^verbatim>\<open>validateContent\<close>: each property may be missing, and the
  argument itself may be \<^verbatim>\<open>null\<close> or \<^verbatim>\<open>undefined\<close> (\<open>None\<close>).
\<close>

record content_arg =
  arg_text :: "string option"
  arg_hashtags :: "string list option"
  arg_media :: "string list option"

record validation =
  isValid :: bool
  errors :: "string list"

text \<open>
  A JavaScript guard \<^verbatim>\<open>limit && value && value.length > limit\<close>: a missing or zero limit
  and a missing or empty value are falsy.
\<close>

definition exceeds :: "nat option \<Rightarrow> 'a list option \<Rightarrow> bool" where
  "exceeds lim v =
     (case lim of
        None \<Rightarrow> False
      | Some l \<Rightarrow> l \<noteq> 0 \<and> (case v of None \<Rightarrow> False | Some xs \<Rightarrow> l < length xs))"

text \<open>
  \<^verbatim>\<open>validateContent\<close> (part_001, lines 168-188). Reading a property of a \<^verbatim>\<open>null\<close> content
  throws a TypeError, which happens only after a truthy limit.
\<close>

definition validateContent :: "string \<Rightarrow> content_arg option \<Rightarrow> js_error + validation" where
  "validateContent p c =
     (let lim = getPlatformLimits p;
          truthy = (\<lambda>l. case l of None \<Rightarrow> False | Some n \<Rightarrow> n \<noteq> (0::nat))
      in case c of
           None \<Rightarrow>
             (if truthy (textLimit lim) \<or> truthy (hashtagLimit lim) \<or> truthy (mediaLimit lim)
              then Inl (Error ''Cannot read properties of undefined'')
              else Inr \<lparr>isValid = True, errors = []\<rparr>)
         | Some ct \<Rightarrow>
             (let e1 = (if exceeds (textLimit lim) (arg_text ct)
                        then [''Text exceeds '' @ p @ '' limit of '' @ show_nat (the (textLimit lim))
                              @ '' characters'']
                        else []);
                  e2 = (if exceeds (hashtagLimit lim) (arg_hashtags ct)
                        then [''Too many hashtags for '' @ p @ '' (max: ''
                              @ show_nat (the (hashtagLimit lim)) @ '')'']
                        else []);
                  e3 = (if exceeds (mediaLimit lim) (arg_media ct)
                        then [''Too many media items for '' @ p @ '' (max: ''
                              @ show_nat (the (mediaLimit lim)) @ '')'']
                        else []);
                  errs = e1 @ e2 @ e3
              in Inr \<lparr>isValid = (errs = []), errors = errs\<rparr>))"

section \<open>SchedulerService: lifecycle\<close>

text \<open>\<^verbatim>\<open>cron.schedule\<close> registers a new task; \<^verbatim>\<open>task.destroy()\<close> removes it.\<close>

definition cron_schedule :: "world \<Rightarrow> nat \<times> world" where
  "cron_schedule w =
     (cronFresh w, w\<lparr>cronTasks := cronTasks w @ [cronFresh w], cronFresh := Suc (cronFresh w)\<rparr>)"

definition cron_destroy :: "nat \<Rightarrow> world \<Rightarrow> world" where
  "cron_destroy j w = w\<lparr>cronTasks := removeAll j (cronTasks w)\<rparr>"

text \<open>\<^verbatim>\<open>start()\<close> (lines 15-28).\<close>

definition start :: "world \<Rightarrow> world" where
  "start w =
     (if isRunning w then console_log SchedulerAlreadyRunning w
      else (let (j, w1) = cron_schedule w;
                w2 = w1\<lparr>cronJob := Some j\<rparr>;
                w3 = w2\<lparr>isRunning := True\<rparr>
            in console_log SchedulerStarted w3))"

text \<open>\<^verbatim>\<open>stop()\<close> (lines 33-40).\<close>

definition stop :: "world \<Rightarrow> world" where
  "stop w =
     (let w1 = (case cronJob w of
                  Some j \<Rightarrow> (cron_destroy j w)\<lparr>cronJob := None\<rparr>
                | None \<Rightarrow> w);
          w2 = w1\<lparr>isRunning := False\<rparr>
      in console_log SchedulerStopped w2)"

text \<open>
  \<^verbatim>\<open>getStatus()\<close> (lines 187-192): the running flag and, when a task is held, the task whose
  next date is reported.
\<close>

definition getStatus :: "world \<Rightarrow> bool \<times> nat option" where
  "getStatus w = (isRunning w, cronJob w)"

text \<open>What a caller can observe of the scheduling loop apart from the console.\<close>

definition running_state :: "world \<Rightarrow> bool \<times> nat option \<times> nat list" where
  "running_state w = (isRunning w, cronJob w, cronTasks w)"

section \<open>SchedulerService: the dispatcher\<close>

text \<open>
  \<^verbatim>\<open>logPublishAttempt\<close> (lines 159-182): the document is built with two clock reads and
  saved; a failing save is caught and written to the console.
\<close>

definition error_code :: "js_error \<Rightarrow> string" where
  "error_code err = (case code err of None \<Rightarrow> ''UNKNOWN'' | Some c \<Rightarrow> if c = [] then ''UNKNOWN'' else c)"

definition logPublishAttempt ::
  "env \<Rightarrow> nat \<Rightarrow> string \<Rightarrow> string \<Rightarrow> publish_response option \<Rightarrow> js_error option \<Rightarrow> world \<Rightarrow> world" where
  "logPublishAttempt e pid pl st resp err w =
     (let (t1, w1) = new_Date e w;
          (t2, w2) = new_Date e w1;
          entry = \<lparr>log_postId = pid, log_platform = pl, log_status = st,
                   scheduledTime = t1, executedTime = t2,
                   log_response = map_option (\<lambda>r. (200, r)) resp,
                   log_error = map_option (\<lambda>x. (message x, error_code x)) err\<rparr>
      in case log_save_error e (calls w2) of
           None \<Rightarrow> tick (w2\<lparr>schedulerLogs := schedulerLogs w2 @ [entry]\<rparr>)
         | Some logError \<Rightarrow> console_log (FailedToSaveLog logError) (tick w2))"

text \<open>\<^verbatim>\<open>socialMediaService.publishPost\<close>: the switch on the platform (part_001, lines 7-18).\<close>

definition socialMediaService_publishPost ::
  "env \<Rightarrow> string \<Rightarrow> account_info \<Rightarrow> publish_content \<Rightarrow> world \<Rightarrow> (js_error + publish_response) \<times> world" where
  "socialMediaService_publishPost e pl acct c w =
     (if pl = ''twitter'' \<or> pl = ''linkedin'' \<or> pl = ''instagram''
      then (publisher e (calls w) pl acct c,
            tick (w\<lparr>publisherCalls := publisherCalls w @ [(pl, acct, c)]\<rparr>))
      else (Inl (Error (''Unsupported platform: '' @ pl)), w))"

text \<open>
  \<^verbatim>\<open>publishToPlatform\<close> (lines 139-154). \<open>u\<close> is the populated \<^verbatim>\<open>post.userId\<close>, \<open>None\<close> when
  the owner no longer exists; reading \<^verbatim>\<open>connectedAccounts\<close> of \<^verbatim>\<open>null\<close> throws a TypeError.
\<close>

definition publishToPlatform ::
  "env \<Rightarrow> post \<Rightarrow> user option \<Rightarrow> string \<Rightarrow> world \<Rightarrow> (js_error + publish_response) \<times> world" where
  "publishToPlatform e p u pl w =
     (case u of
        None \<Rightarrow> (Inl (Error ''Cannot read properties of null (reading 'connectedAccounts')''), w)
      | Some usr \<Rightarrow>
          (case connectedAccounts usr pl of
             None \<Rightarrow> (Inl (Error (pl @ '' account not connected for user'')), w)
           | Some accountInfo \<Rightarrow>
               socialMediaService_publishPost e pl accountInfo
                 \<lparr>pc_text = body (content p), pc_hashtags = hashtags (content p),
                  pc_mentions = mentions (content p), pc_media = media p\<rparr> w))"

text \<open>The variables of the platform loop of \<^verbatim>\<open>publishPost\<close>.\<close>

record dispatch =
  d_post :: post
  successCount :: nat
  failureCount :: nat
  d_world :: world

text \<open>One iteration of the loop (lines 81-113).\<close>

definition attempt :: "env \<Rightarrow> user option \<Rightarrow> string \<Rightarrow> dispatch \<Rightarrow> dispatch" where
  "attempt e u pl d =
     (let p = d_post d in
      case publishToPlatform e p u pl (d_world d) of
        (Inr result, w1) \<Rightarrow>
          (let w2 = logPublishAttempt e (post_id p) pl ''success'' (Some result) None w1;
               (t, w3) = new_Date e w2;
               r = \<lparr>platform = pl, postId = Some (resp_postId result), url = Some (resp_url result),
                    success = True, error = None, postedAt = t\<rparr>
           in \<lparr>d_post = p\<lparr>results := results p @ [r]\<rparr>,
               successCount = successCount d + 1,
               failureCount = failureCount d,
               d_world = console_log (SuccessfullyPosted pl) w3\<rparr>)
      | (Inl err, w1) \<Rightarrow>
          (let w2 = console_log (FailedToPost pl (message err)) w1;
               w3 = logPublishAttempt e (post_id p) pl ''failed'' None (Some err) w2;
               (t, w4) = new_Date e w3;
               r = \<lparr>platform = pl, postId = None, url = None,
                    success = False, error = Some (message err), postedAt = t\<rparr>
           in \<lparr>d_post = p\<lparr>results := results p @ [r]\<rparr>,
               successCount = successCount d,
               failureCount = failureCount d + 1,
               d_world = w4\<rparr>))"

text \<open>The loop \<^verbatim>\<open>for (const platform of post.platforms)\<close> (lines 80-114).\<close>

fun run_platforms :: "env \<Rightarrow> user option \<Rightarrow> string list \<Rightarrow> dispatch \<Rightarrow> dispatch" where
  "run_platforms e u [] d = d"
| "run_platforms e u (pl # pls) d = run_platforms e u pls (attempt e u pl d)"

text \<open>Lines 70-75: the post is marked \<^verbatim>\<open>posting\<close> and saved.\<close>

definition mark_posting :: "env \<Rightarrow> post \<Rightarrow> world \<Rightarrow> js_error option \<times> post \<times> world" where
  "mark_posting e p w =
     (let w0 = console_log (PublishingPost (post_id p) (platforms p)) w;
          (t, w1) = new_Date e w0;
          p1 = p\<lparr>status := ''posting'', lastAttempt := Some t\<rparr>;
          (r, w2) = Post_save e p1 w1
      in (r, p1, w2))"

text \<open>Lines 117-131: the final status and the retry policy.\<close>

definition final_status :: "env \<Rightarrow> dispatch \<Rightarrow> post \<times> world" where
  "final_status e d =
     (let p = d_post d; w = d_world d in
      if 0 < successCount d \<and> failureCount d = 0 then (p\<lparr>status := ''posted''\<rparr>, w)
      else if 0 < successCount d \<and> 0 < failureCount d then (p\<lparr>status := ''posted''\<rparr>, w)
      else (let p1 = p\<lparr>status := ''failed'', retryCount := retryCount p + 1\<rparr> in
            if retryCount p1 < 3
            then (let (t, w1) = new_Date e w;
                      p2 = p1\<lparr>status := ''scheduled'', scheduledAt := t + 15 * 60 * 1000\<rparr>
                  in (p2, console_log (SchedulingRetry (retryCount p2) (post_id p2)) w1))
            else (p1, w)))"

text \<open>
  The state of the loop variables when the loop of \<^verbatim>\<open>publishPost\<close> ends (it is entered
  only when the first save succeeded).
\<close>

definition dispatch_of :: "env \<Rightarrow> post \<times> user option \<Rightarrow> world \<Rightarrow> dispatch" where
  "dispatch_of e pu w =
     (case mark_posting e (fst pu) w of
        (r, p1, w1) \<Rightarrow>
          run_platforms e (snd pu) (platforms p1)
            \<lparr>d_post = p1, successCount = 0, failureCount = 0, d_world = w1\<rparr>)"

text \<open>
  \<^verbatim>\<open>publishPost\<close> (lines 69-134). The argument is the post with its populated owner. The
  result is the error thrown to the caller, if any, and the new state.
\<close>

definition publishPost :: "env \<Rightarrow> post \<times> user option \<Rightarrow> world \<Rightarrow> js_error option \<times> world" where
  "publishPost e pu w =
     (case mark_posting e (fst pu) w of
        (Some err, p1, w1) \<Rightarrow> (Some err, w1)
      | (None, p1, w1) \<Rightarrow>
          (let d = run_platforms e (snd pu) (platforms p1)
                     \<lparr>d_post = p1, successCount = 0, failureCount = 0, d_world = w1\<rparr>;
               (p2, w2) = final_status e d
           in Post_save e p2 w2))"

section \<open>SchedulerService: the scheduling tick\<close>

text \<open>The filter of the due-post query (lines 50-54).\<close>

definition due :: "int \<Rightarrow> post \<Rightarrow> bool" where
  "due now p \<longleftrightarrow> scheduledAt p \<le> now \<and> status p \<in> set [''scheduled''] \<and> retryCount p < 3"

text \<open>
  \<^verbatim>\<open>Post.find(filter).populate('userId')\<close>: the stored documents that match, in the order
  the store yields them, each with its owner.
\<close>

definition Post_find_due ::
  "env \<Rightarrow> int \<Rightarrow> world \<Rightarrow> (js_error + (post \<times> user option) list) \<times> world" where
  "Post_find_due e now w =
     (case post_find_error e (calls w) of
        Some err \<Rightarrow> (Inl err, tick w)
      | None \<Rightarrow>
          (Inr (map (\<lambda>p. (p, users w (userId p)))
                  (filter (due now) (List.map_filter (posts w) (cursor e (calls w))))),
           tick w))"

text \<open>The loop of lines 58-60; a throwing \<^verbatim>\<open>publishPost\<close> ends it.\<close>

fun publish_each :: "env \<Rightarrow> (post \<times> user option) list \<Rightarrow> world \<Rightarrow> js_error option \<times> world" where
  "publish_each e [] w = (None, w)"
| "publish_each e (pu # pus) w =
     (case publishPost e pu w of
        (Some err, w1) \<Rightarrow> (Some err, w1)
      | (None, w1) \<Rightarrow> publish_each e pus w1)"

text \<open>\<^verbatim>\<open>processScheduledPosts\<close> (lines 45-64).\<close>

definition processScheduledPosts :: "env \<Rightarrow> world \<Rightarrow> world" where
  "processScheduledPosts e w =
     (let (now, w1) = new_Date e w in
      case Post_find_due e now w1 of
        (Inl err, w2) \<Rightarrow> console_log (ErrorProcessing err) w2
      | (Inr postsToPublish, w2) \<Rightarrow>
          (let w3 = console_log (FoundPosts (length postsToPublish)) w2 in
           case publish_each e postsToPublish w3 of
             (Some err, w4) \<Rightarrow> console_log (ErrorProcessing err) w4
           | (None, w4) \<Rightarrow> w4))"

text \<open>The ids handed to \<^verbatim>\<open>publishPost\<close>, read off the console (line 70).\<close>

fun dispatched :: "console_msg list \<Rightarrow> nat list" where
  "dispatched [] = []"
| "dispatched (PublishingPost i pls # ms) = i # dispatched ms"
| "dispatched (m # ms) = dispatched ms"

text \<open>
  The clock reading of \<^verbatim>\<open>Date.now()\<close> on line 128, the time at which the dispatch
  reschedules the post: it is read when the platform loop has ended.
\<close>

definition retry_now :: "env \<Rightarrow> post \<times> user option \<Rightarrow> world \<Rightarrow> int" where
  "retry_now e pu w = clock e (calls (d_world (dispatch_of e pu w)))"

text \<open>The list a due-post query returns (empty when the query throws).\<close>

definition query_result :: "env \<Rightarrow> int \<Rightarrow> world \<Rightarrow> (post \<times> user option) list" where
  "query_result e now w = (case fst (Post_find_due e now w) of Inl err \<Rightarrow> [] | Inr ps \<Rightarrow> ps)"

text \<open>
  The loop variables of \<^verbatim>\<open>publishPost\<close> after the first \<open>k\<close> iterations of the platform
  loop (all of them when \<open>k\<close> is the number of platforms or more).
\<close>

definition loop_state :: "env \<Rightarrow> post \<times> user option \<Rightarrow> world \<Rightarrow> nat \<Rightarrow> dispatch" where
  "loop_state e pu w k =
     (case mark_posting e (fst pu) w of
        (r, p1, w1) \<Rightarrow>
          run_platforms e (snd pu) (take k (platforms p1))
            \<lparr>d_post = p1, successCount = 0, failureCount = 0, d_world = w1\<rparr>)"

text \<open>
  The platforms for which \<^verbatim>\<open>publishToPlatform\<close> reaches a publisher: the owner has an
  account for it and the switch of \<^verbatim>\<open>socialMediaService.publishPost\<close> knows it.
\<close>

definition attemptable :: "user \<Rightarrow> string \<Rightarrow> bool" where
  "attemptable usr pl \<longleftrightarrow>
     connectedAccounts usr pl \<noteq> None \<and> (pl = ''twitter'' \<or> pl = ''linkedin'' \<or> pl = ''instagram'')"





text \<open>The ids of a list of populated posts.\<close>

fun post_ids :: "(post \<times> user option) list \<Rightarrow> nat list" where
  "post_ids [] = []"
| "post_ids (pu # pus) = post_id (fst pu) # post_ids pus"

text \<open>
  The list the due-post query of a tick returns (lines 47-54: the clock is read, then the
  store is queried), and the ids the tick hands to \<^verbatim>\<open>publishPost\<close>.
\<close>

definition tick_query :: "env \<Rightarrow> world \<Rightarrow> (post \<times> user option) list" where
  "tick_query e w = query_result e (clock e (calls w)) (tick w)"

definition tick_dispatched :: "env \<Rightarrow> world \<Rightarrow> nat list" where
  "tick_dispatched e w =
     drop (length (dispatched (console w))) (dispatched (console (processScheduledPosts e w)))"

text \<open>
  The state in which the loop of a tick starts (line 58): the clock was read, the query
  answered and the number of posts found written to the console.
\<close>

definition tick_loop_start :: "env \<Rightarrow> world \<Rightarrow> world" where
  "tick_loop_start e w = console_log (FoundPosts (length (tick_query e w))) (tick (tick w))"

section \<open>The post API: update and delete\<close>

text \<open>
  The handlers \<^verbatim>\<open>router.put('/:id')\<close> and \<^verbatim>\<open>router.delete('/:id')\<close> of
  \<^verbatim>\<open>src/server/routes/posts.js\<close>, after \<^verbatim>\<open>authenticateToken\<close> has set \<^verbatim>\<open>req.userId\<close>.
\<close>

record put_request =
  params_id :: nat
  req_userId :: nat
  body_content :: "string option"
  body_platforms :: "string list option"
  body_scheduledAt :: "string option"
  body_status :: "string option"

record delete_request =
  del_params_id :: nat
  del_userId :: nat

datatype response_body =
    ErrorBody string "string list"
  | PostBody string post
  | MessageBody string

record response =
  status_code :: nat
  json :: response_body

definition is_error_response :: "response \<Rightarrow> bool" where
  "is_error_response r \<longleftrightarrow>
     400 \<le> status_code r \<and> (case json r of ErrorBody m ds \<Rightarrow> True | PostBody m p \<Rightarrow> False | MessageBody m \<Rightarrow> False)"

text \<open>The express-validator chain of the update route (posts.js, lines 251-255).\<close>

definition put_validation :: "env \<Rightarrow> put_request \<Rightarrow> string list" where
  "put_validation e r =
     (case body_content r of
        Some c \<Rightarrow> if c = [] then [''Post content cannot be empty''] else []
      | None \<Rightarrow> [])
     @ (case body_platforms r of
          Some pls \<Rightarrow> if length pls < 1 then [''At least one platform required''] else []
        | None \<Rightarrow> [])
     @ (case body_platforms r of
          Some pls \<Rightarrow>
            concat (map (\<lambda>pl. if pl \<in> set [''twitter'', ''linkedin'', ''instagram''] then []
                               else [''Invalid platform'']) pls)
        | None \<Rightarrow> [])
     @ (case body_scheduledAt r of
          Some d \<Rightarrow> if isISO8601 e d then [] else [''Valid scheduled date required'']
        | None \<Rightarrow> [])
     @ (case body_status r of
          Some st \<Rightarrow> if st \<in> set [''draft'', ''scheduled'', ''published''] then []
                     else [''Invalid status'']
        | None \<Rightarrow> [])"

text \<open>\<^verbatim>\<open>Post.findOne({ _id, userId })\<close>.\<close>

definition Post_findOne :: "env \<Rightarrow> nat \<Rightarrow> nat \<Rightarrow> world \<Rightarrow> (js_error + post option) \<times> world" where
  "Post_findOne e i uid w =
     (case post_find_error e (calls w) of
        Some err \<Rightarrow> (Inl err, tick w)
      | None \<Rightarrow>
          (Inr (case posts w i of
                  None \<Rightarrow> None
                | Some p \<Rightarrow> if userId p = uid then Some p else None),
           tick w))"

text \<open>The \<^verbatim>\<open>updates\<close> object (posts.js, lines 272-278); a missing or empty value is falsy.\<close>

record updates =
  up_text :: "string option"
  up_platforms :: "string list option"
  up_scheduledAt :: "int option"
  up_status :: "string option"

definition nonempty :: "'a list option \<Rightarrow> 'a list option" where
  "nonempty v = (case v of None \<Rightarrow> None | Some xs \<Rightarrow> if xs = [] then None else Some xs)"

definition make_updates :: "env \<Rightarrow> put_request \<Rightarrow> updates" where
  "make_updates e r =
     \<lparr>up_text = nonempty (body_content r),
      up_platforms = body_platforms r,
      up_scheduledAt = map_option (parseDate e) (nonempty (body_scheduledAt r)),
      up_status = nonempty (body_status r)\<rparr>"

definition apply_updates :: "updates \<Rightarrow> post \<Rightarrow> post" where
  "apply_updates u p =
     (let p1 = (case up_text u of Some t \<Rightarrow> p\<lparr>content := (content p)\<lparr>body := t\<rparr>\<rparr> | None \<Rightarrow> p);
          p2 = (case up_platforms u of Some pls \<Rightarrow> p1\<lparr>platforms := pls\<rparr> | None \<Rightarrow> p1);
          p3 = (case up_scheduledAt u of Some t \<Rightarrow> p2\<lparr>scheduledAt := t\<rparr> | None \<Rightarrow> p2)
      in (case up_status u of Some st \<Rightarrow> p3\<lparr>status := st\<rparr> | None \<Rightarrow> p3))"

text \<open>\<^verbatim>\<open>Post.findByIdAndUpdate(id, updates, { new: true })\<close>.\<close>

definition Post_findByIdAndUpdate ::
  "env \<Rightarrow> nat \<Rightarrow> updates \<Rightarrow> world \<Rightarrow> (js_error + post option) \<times> world" where
  "Post_findByIdAndUpdate e i u w =
     (case post_save_error e (calls w) of
        Some err \<Rightarrow> (Inl err, tick w)
      | None \<Rightarrow>
          (case posts w i of
             None \<Rightarrow> (Inr None, tick w)
           | Some p \<Rightarrow>
               (Inr (Some (apply_updates u p)),
                tick (w\<lparr>posts := (posts w)(i \<mapsto> apply_updates u p)\<rparr>))))"

text \<open>\<^verbatim>\<open>Post.findByIdAndDelete(id)\<close>.\<close>

definition Post_findByIdAndDelete :: "env \<Rightarrow> nat \<Rightarrow> world \<Rightarrow> js_error option \<times> world" where
  "Post_findByIdAndDelete e i w =
     (case post_save_error e (calls w) of
        Some err \<Rightarrow> (Some err, tick w)
      | None \<Rightarrow> (None, tick (w\<lparr>posts := (posts w)(i := None)\<rparr>)))"

text \<open>
  The validation loop of the update route (posts.js, lines 284-292): the first platform
  whose validation fails ends the request.
\<close>

fun first_invalid :: "string list \<Rightarrow> string \<Rightarrow> (js_error + (string \<times> string list) option)" where
  "first_invalid [] t = Inr None"
| "first_invalid (pl # pls) t =
     (case validateContent pl (Some \<lparr>arg_text = Some t, arg_hashtags = None, arg_media = None\<rparr>) of
        Inl err \<Rightarrow> Inl err
      | Inr v \<Rightarrow> if \<not> isValid v then Inr (Some (pl, errors v)) else first_invalid pls t)"

definition put_failed :: "js_error \<Rightarrow> world \<Rightarrow> response \<times> world" where
  "put_failed err w =
     (\<lparr>status_code = 500, json = ErrorBody ''Failed to update post'' []\<rparr>,
      console_log (UpdatePostError err) w)"

text \<open>The handler of \<^verbatim>\<open>PUT /:id\<close> (posts.js, lines 256-317).\<close>

definition put_post :: "env \<Rightarrow> put_request \<Rightarrow> world \<Rightarrow> response \<times> world" where
  "put_post e r w =
     (if put_validation e r \<noteq> []
      then (\<lparr>status_code = 400, json = ErrorBody ''Validation failed'' (put_validation e r)\<rparr>, w)
      else
        case Post_findOne e (params_id r) (req_userId r) w of
          (Inl err, w1) \<Rightarrow> put_failed err w1
        | (Inr None, w1) \<Rightarrow> (\<lparr>status_code = 404, json = ErrorBody ''Post not found'' []\<rparr>, w1)
        | (Inr (Some p), w1) \<Rightarrow>
            if status p = ''posted''
            then (\<lparr>status_code = 400, json = ErrorBody ''Cannot edit published posts'' []\<rparr>, w1)
            else
              (let u = make_updates e r;
                   checked =
                     (if up_text u \<noteq> None \<or> up_platforms u \<noteq> None
                      then first_invalid
                             (case up_platforms u of Some pls \<Rightarrow> pls | None \<Rightarrow> platforms p)
                             (case up_text u of Some t \<Rightarrow> t | None \<Rightarrow> body (content p))
                      else Inr None)
               in case checked of
                    Inl err \<Rightarrow> put_failed err w1
                  | Inr (Some (pl, ds)) \<Rightarrow>
                      (\<lparr>status_code = 400,
                        json = ErrorBody (''Content validation failed for '' @ pl) ds\<rparr>, w1)
                  | Inr None \<Rightarrow>
                      (case Post_findByIdAndUpdate e (params_id r) u w1 of
                         (Inl err, w2) \<Rightarrow> put_failed err w2
                       | (Inr None, w2) \<Rightarrow>
                           put_failed (Error ''Cannot read properties of null (reading '_id')'') w2
                       | (Inr (Some updatedPost), w2) \<Rightarrow>
                           (\<lparr>status_code = 200,
                             json = PostBody ''Post updated successfully'' updatedPost\<rparr>, w2))))"

text \<open>The handler of \<^verbatim>\<open>DELETE /:id\<close> (posts.js, lines 321-339).\<close>

definition delete_post :: "env \<Rightarrow> delete_request \<Rightarrow> world \<Rightarrow> response \<times> world" where
  "delete_post e r w =
     (let failed = (\<lambda>err w'. (\<lparr>status_code = 500, json = ErrorBody ''Failed to delete post'' []\<rparr>,
                               console_log (DeletePostError err) w'))
      in case Post_findOne e (del_params_id r) (del_userId r) w of
           (Inl err, w1) \<Rightarrow> failed err w1
         | (Inr None, w1) \<Rightarrow> (\<lparr>status_code = 404, json = ErrorBody ''Post not found'' []\<rparr>, w1)
         | (Inr (Some p), w1) \<Rightarrow>
             if status p = ''posted''
             then (\<lparr>status_code = 400, json = ErrorBody ''Cannot delete published posts'' []\<rparr>, w1)
             else
               (case Post_findByIdAndDelete e (del_params_id r) w1 of
                  (Some err, w2) \<Rightarrow> failed err w2
                | (None, w2) \<Rightarrow>
                    (\<lparr>status_code = 200, json = MessageBody ''Post deleted successfully''\<rparr>, w2)))"

section \<open>Concrete inputs\<close>

definition acct0 :: account_info where
  "acct0 = \<lparr>accessToken = ''tok'', username = ''alice''\<rparr>"

text \<open>A user with a Twitter account only.\<close>

definition user0 :: user where
  "user0 = \<lparr>connectedAccounts = [''twitter'' \<mapsto> acct0]\<rparr>"

definition post0 :: post where
  "post0 = \<lparr>post_id = 1, userId = 7,
            content = \<lparr>body = ''hello'', hashtags = [], mentions = []\<rparr>,
            media = [], platforms = [''twitter'', ''linkedin''],
            scheduledAt = 1000, status = ''scheduled'', retryCount = 0,
            lastAttempt = None, results = []\<rparr>"

definition world0 :: world where
  "world0 = \<lparr>posts = [1 \<mapsto> post0], users = [7 \<mapsto> user0], schedulerLogs = [], console = [],
             publisherCalls = [], isRunning = False, cronJob = None, cronTasks = [],
             cronFresh = 0, calls = 0\<rparr>"

text \<open>
  An environment where the clock shows \<open>5000 + k\<close> at interaction \<open>k\<close>, every publisher call
  succeeds, no store operation fails and the store yields the ids 1 and 2.
\<close>

definition env0 :: env where
  "env0 = \<lparr>clock = (\<lambda>k. 5000 + int k),
           publisher = (\<lambda>k pl a c. Inr \<lparr>resp_postId = ''t1'', resp_url = ''u1'', resp_platform = pl\<rparr>),
           log_save_error = (\<lambda>k. None),
           post_save_error = (\<lambda>k. None),
           post_find_error = (\<lambda>k. None),
           cursor = (\<lambda>k. [1, 2]),
           isISO8601 = (\<lambda>s. True),
           parseDate = (\<lambda>s. 0)\<rparr>"

text \<open>A post whose only target is a platform the owner has not connected.\<close>

definition post1 :: post where
  "post1 = post0\<lparr>platforms := [''linkedin'']\<rparr>"

text \<open>The same post after two failed dispatches.\<close>

definition post2 :: post where
  "post2 = post1\<lparr>retryCount := 2\<rparr>"

text \<open>A post with no target platform.\<close>

definition post3 :: post where
  "post3 = post0\<lparr>platforms := []\<rparr>"

text \<open>A store whose post 1 has been published, and requests to edit and to delete it.\<close>

definition world_posted :: world where
  "world_posted = world0\<lparr>posts := [1 \<mapsto> post0\<lparr>status := ''posted''\<rparr>]\<rparr>"

definition put0 :: put_request where
  "put0 = \<lparr>params_id = 1, req_userId = 7, body_content = Some ''edited'',
           body_platforms = None, body_scheduledAt = None, body_status = Some ''draft''\<rparr>"

definition delete0 :: delete_request where
  "delete0 = \<lparr>del_params_id = 1, del_userId = 7\<rparr>"

text \<open>An environment whose store yields the id 1 twice in answer to a query.\<close>

definition env_dup :: env where
  "env_dup = env0\<lparr>cursor := (\<lambda>k. [1, 1])\<rparr>"


text \<open>An environment in which the first write of the Post collection fails.\<close>

definition env_savefail :: env where
  "env_savefail = env0\<lparr>post_save_error := (\<lambda>k. if k = 1 then Some (Error ''store unavailable'') else None)\<rparr>"

text \<open>
  A store with three due posts, an environment whose store yields them in the order 3, 1,
  2, and one in which moreover the twelfth interaction, the first save of the second
  dispatch, fails.
\<close>

definition world_three :: world where
  "world_three = world0\<lparr>posts := [1 \<mapsto> post1, 2 \<mapsto> post1\<lparr>post_id := 2\<rparr>, 3 \<mapsto> post1\<lparr>post_id := 3\<rparr>]\<rparr>"

definition env_order :: env where
  "env_order = env0\<lparr>cursor := (\<lambda>k. [3, 1, 2])\<rparr>"

definition env_throw :: env where
  "env_throw = env_order\<lparr>post_save_error := (\<lambda>k. if k = 11 then Some (Error ''store unavailable'') else None)\<rparr>"

section \<open>The platform loop\<close>

lemma logPublishAttempt_posts [simp]:
  "posts (logPublishAttempt e pid pl st resp err w) = posts w"
  by (simp add: logPublishAttempt_def new_Date_def tick_def console_log_def split: option.splits)

lemma logPublishAttempt_publisherCalls [simp]:
  "publisherCalls (logPublishAttempt e pid pl st resp err w) = publisherCalls w"
  by (simp add: logPublishAttempt_def new_Date_def tick_def console_log_def split: option.splits)

lemma dispatched_append: "dispatched (xs @ ys) = dispatched xs @ dispatched ys"
  by (induction xs rule: dispatched.induct) simp_all

lemma logPublishAttempt_dispatched [simp]:
  "dispatched (console (logPublishAttempt e pid pl st resp err w)) = dispatched (console w)"
  by (simp add: logPublishAttempt_def new_Date_def tick_def console_log_def dispatched_append
      split: option.splits)

lemma publishToPlatform_posts [simp]:
  "posts (snd (publishToPlatform e p u pl w)) = posts w"
  by (simp add: publishToPlatform_def socialMediaService_publishPost_def tick_def
      split: option.splits)

lemma publishToPlatform_console [simp]:
  "console (snd (publishToPlatform e p u pl w)) = console w"
  by (simp add: publishToPlatform_def socialMediaService_publishPost_def tick_def
      split: option.splits)

lemma attempt_posts [simp]: "posts (d_world (attempt e u pl d)) = posts (d_world d)"
proof -
  obtain r w1 where pw: "publishToPlatform e (d_post d) u pl (d_world d) = (r, w1)"
    by (cases "publishToPlatform e (d_post d) u pl (d_world d)")
  have "posts w1 = posts (d_world d)"
    using publishToPlatform_posts [of e "d_post d" u pl "d_world d"] pw by simp
  then show ?thesis
    by (cases r) (simp_all add: attempt_def pw Let_def new_Date_def tick_def console_log_def)
qed

lemma attempt_dispatched [simp]:
  "dispatched (console (d_world (attempt e u pl d))) = dispatched (console (d_world d))"
proof -
  obtain r w1 where pw: "publishToPlatform e (d_post d) u pl (d_world d) = (r, w1)"
    by (cases "publishToPlatform e (d_post d) u pl (d_world d)")
  have "console w1 = console (d_world d)"
    using publishToPlatform_console [of e "d_post d" u pl "d_world d"] pw by simp
  then show ?thesis
    by (cases r) (simp_all add: attempt_def pw Let_def new_Date_def tick_def console_log_def
        dispatched_append)
qed

text \<open>The Platform Result one iteration appends.\<close>

lemma attempt_last:
  "d_post (attempt e u pl d)
     = (d_post d)\<lparr>results := results (d_post d) @ [last (results (d_post (attempt e u pl d)))]\<rparr>
   \<and> platform (last (results (d_post (attempt e u pl d)))) = pl
   \<and> successCount (attempt e u pl d)
       = successCount d + (if success (last (results (d_post (attempt e u pl d)))) then 1 else 0)
   \<and> failureCount (attempt e u pl d)
       = failureCount d + (if success (last (results (d_post (attempt e u pl d)))) then 0 else 1)"
proof -
  obtain r w1 where pw: "publishToPlatform e (d_post d) u pl (d_world d) = (r, w1)"
    by (cases "publishToPlatform e (d_post d) u pl (d_world d)")
  show ?thesis
    by (cases r) (simp_all add: attempt_def pw Let_def new_Date_def split: prod.splits)
qed

lemma attempt_post:
  "\<exists>r. d_post (attempt e u pl d) = (d_post d)\<lparr>results := results (d_post d) @ [r]\<rparr>
     \<and> platform r = pl
     \<and> successCount (attempt e u pl d) = successCount d + (if success r then 1 else 0)
     \<and> failureCount (attempt e u pl d) = failureCount d + (if success r then 0 else 1)"
  using attempt_last [of e u pl d] by blast

lemma run_platforms_posts [simp]:
  "posts (d_world (run_platforms e u pls d)) = posts (d_world d)"
  by (induction pls arbitrary: d) simp_all

lemma run_platforms_dispatched [simp]:
  "dispatched (console (d_world (run_platforms e u pls d))) = dispatched (console (d_world d))"
  by (induction pls arbitrary: d) simp_all

lemma run_platforms_append:
  "run_platforms e u (xs @ ys) d = run_platforms e u ys (run_platforms e u xs d)"
  by (induction xs arbitrary: d) simp_all

lemma run_platforms_post:
  "\<exists>rs. d_post (run_platforms e u pls d) = (d_post d)\<lparr>results := results (d_post d) @ rs\<rparr>
     \<and> map platform rs = pls
     \<and> successCount (run_platforms e u pls d) = successCount d + length (filter success rs)
     \<and> failureCount (run_platforms e u pls d) = failureCount d + length (filter (\<lambda>r. \<not> success r) rs)"
proof (induction pls arbitrary: d)
  case Nil
  show ?case by simp
next
  case (Cons pl pls)
  obtain r where r: "d_post (attempt e u pl d) = (d_post d)\<lparr>results := results (d_post d) @ [r]\<rparr>"
      "platform r = pl"
      "successCount (attempt e u pl d) = successCount d + (if success r then 1 else 0)"
      "failureCount (attempt e u pl d) = failureCount d + (if success r then 0 else 1)"
    using attempt_post [of e u pl d] by blast
  obtain rs where rs:
      "d_post (run_platforms e u pls (attempt e u pl d))
         = (d_post (attempt e u pl d))\<lparr>results := results (d_post (attempt e u pl d)) @ rs\<rparr>"
      "map platform rs = pls"
      "successCount (run_platforms e u pls (attempt e u pl d))
         = successCount (attempt e u pl d) + length (filter success rs)"
      "failureCount (run_platforms e u pls (attempt e u pl d))
         = failureCount (attempt e u pl d) + length (filter (\<lambda>r. \<not> success r) rs)"
    using Cons.IH [of "attempt e u pl d"] by blast
  show ?case
    by (rule exI [of _ "r # rs"]) (simp add: r rs)
qed

section \<open>The dispatcher\<close>

lemma mark_posting_post:
  "fst (snd (mark_posting e p w)) = p\<lparr>status := ''posting'', lastAttempt := Some (clock e (calls w))\<rparr>"
  by (simp add: mark_posting_def Let_def new_Date_def console_log_def split: prod.splits)

lemma mark_posting_stored:
  "fst (mark_posting e p w) = None \<Longrightarrow>
   posts (snd (snd (mark_posting e p w)))
     = (posts w)(post_id p \<mapsto> fst (snd (mark_posting e p w)))"
  by (simp add: mark_posting_def Let_def new_Date_def console_log_def Post_save_def tick_def
      split_def split: option.splits)

lemma mark_posting_publisherCalls:
  "publisherCalls (snd (snd (mark_posting e p w))) = publisherCalls w"
  by (simp add: mark_posting_def Let_def new_Date_def console_log_def Post_save_def tick_def
      split_def split: option.splits)

lemma mark_posting_dispatched:
  "dispatched (console (snd (snd (mark_posting e p w)))) = dispatched (console w) @ [post_id p]"
  by (simp add: mark_posting_def Let_def new_Date_def console_log_def Post_save_def tick_def
      dispatched_append split_def split: option.splits)

lemma final_status_success:
  "0 < successCount d \<Longrightarrow> final_status e d = ((d_post d)\<lparr>status := ''posted''\<rparr>, d_world d)"
  by (simp add: final_status_def Let_def)

lemma final_status_failure:
  "successCount d = 0 \<Longrightarrow>
   fst (final_status e d) =
     (if retryCount (d_post d) + 1 < 3
      then (d_post d)\<lparr>status := ''scheduled'', retryCount := retryCount (d_post d) + 1,
                      scheduledAt := clock e (calls (d_world d)) + 15 * 60 * 1000\<rparr>
      else (d_post d)\<lparr>status := ''failed'', retryCount := retryCount (d_post d) + 1\<rparr>)"
  by (simp add: final_status_def Let_def new_Date_def split: prod.splits)

lemma final_status_frame:
  "post_id (fst (final_status e d)) = post_id (d_post d)
   \<and> results (fst (final_status e d)) = results (d_post d)
   \<and> posts (snd (final_status e d)) = posts (d_world d)
   \<and> publisherCalls (snd (final_status e d)) = publisherCalls (d_world d)
   \<and> dispatched (console (snd (final_status e d))) = dispatched (console (d_world d))"
  by (simp add: final_status_def Let_def new_Date_def tick_def console_log_def dispatched_append
      split: prod.splits)

lemma dispatch_of_post:
  "\<exists>rs. d_post (dispatch_of e (p, u) w)
          = p\<lparr>status := ''posting'', lastAttempt := Some (clock e (calls w)),
               results := results p @ rs\<rparr>
     \<and> map platform rs = platforms p
     \<and> successCount (dispatch_of e (p, u) w) = length (filter success rs)
     \<and> failureCount (dispatch_of e (p, u) w) = length (filter (\<lambda>r. \<not> success r) rs)"
proof -
  obtain r p1 w1 where mp: "mark_posting e p w = (r, p1, w1)"
    by (cases "mark_posting e p w") auto
  have p1: "p1 = p\<lparr>status := ''posting'', lastAttempt := Some (clock e (calls w))\<rparr>"
    using mark_posting_post [of e p w] mp by simp
  let ?d0 = "\<lparr>d_post = p1, successCount = 0, failureCount = 0, d_world = w1\<rparr>"
  obtain rs where rs:
      "d_post (run_platforms e u (platforms p1) ?d0) = (d_post ?d0)\<lparr>results := results (d_post ?d0) @ rs\<rparr>"
      "map platform rs = platforms p1"
      "successCount (run_platforms e u (platforms p1) ?d0) = successCount ?d0 + length (filter success rs)"
      "failureCount (run_platforms e u (platforms p1) ?d0)
         = failureCount ?d0 + length (filter (\<lambda>r. \<not> success r) rs)"
    using run_platforms_post [of e u "platforms p1" ?d0] by blast
  show ?thesis
    by (rule exI [of _ rs]) (use rs in \<open>simp add: dispatch_of_def mp p1\<close>)
qed

text \<open>When \<^verbatim>\<open>publishPost\<close> returns normally, the store holds the post the policy computed.\<close>

lemma publishPost_returns:
  assumes "fst (publishPost e (p, u) w) = None"
  shows "posts (snd (publishPost e (p, u) w)) (post_id p)
           = Some (fst (final_status e (dispatch_of e (p, u) w)))"
proof -
  obtain r p1 w1 where mp: "mark_posting e p w = (r, p1, w1)"
    by (cases "mark_posting e p w") auto
  let ?d = "dispatch_of e (p, u) w"
  obtain p2 w2 where fs: "final_status e ?d = (p2, w2)"
    by (cases "final_status e ?d")
  have r: "r = None"
    using assms by (cases r) (simp_all add: publishPost_def mp)
  have pp: "publishPost e (p, u) w = Post_save e p2 w2"
    using fs by (simp add: publishPost_def dispatch_of_def mp r)
  obtain rs where "d_post ?d = p\<lparr>status := ''posting'', lastAttempt := Some (clock e (calls w)),
               results := results p @ rs\<rparr>"
    using dispatch_of_post [of e p u w] by blast
  then have "post_id (d_post ?d) = post_id p" by simp
  then have id: "post_id p2 = post_id p"
    using final_status_frame [of e ?d] fs by simp
  have "post_save_error e (calls w2) = None"
    using assms pp by (simp add: Post_save_def split: option.splits)
  then show ?thesis
    by (simp add: pp fs Post_save_def tick_def id)
qed

lemma Post_save_frame:
  "publisherCalls (snd (Post_save e p w)) = publisherCalls w
   \<and> schedulerLogs (snd (Post_save e p w)) = schedulerLogs w
   \<and> console (snd (Post_save e p w)) = console w"
  by (simp add: Post_save_def tick_def split: option.splits)

lemma mark_posting_frame:
  "schedulerLogs (snd (snd (mark_posting e p w))) = schedulerLogs w
   \<and> calls (snd (snd (mark_posting e p w))) = calls w + 2"
  by (simp add: mark_posting_def Let_def new_Date_def console_log_def Post_save_def tick_def
      split_def split: option.splits)

lemma final_status_schedulerLogs:
  "schedulerLogs (snd (final_status e d)) = schedulerLogs (d_world d)"
  by (simp add: final_status_def Let_def new_Date_def tick_def console_log_def split_def)

lemma publishPost_unfold:
  assumes "fst (publishPost e (p, u) w) = None"
  shows "publishPost e (p, u) w
           = Post_save e (fst (final_status e (dispatch_of e (p, u) w)))
               (snd (final_status e (dispatch_of e (p, u) w)))"
proof -
  obtain r p1 w1 where mp: "mark_posting e p w = (r, p1, w1)"
    by (cases "mark_posting e p w") auto
  have r: "r = None"
    using assms by (cases r) (simp_all add: publishPost_def mp)
  show ?thesis
    by (simp add: publishPost_def dispatch_of_def mp r split_def Let_def)
qed

lemma query_result_due: "(p, x) \<in> set (query_result e now w) \<Longrightarrow> due now p"
  by (auto simp: query_result_def Post_find_due_def split: option.splits)

lemma not_due_exhausted: "3 \<le> retryCount p \<Longrightarrow> \<not> due now p"
  by (simp add: due_def)

lemma mark_posting_platforms: "platforms (fst (snd (mark_posting e p w))) = platforms p"
  by (simp add: mark_posting_post)

lemma loop_state_full: "loop_state e (p, u) w (length (platforms p)) = dispatch_of e (p, u) w"
  using mark_posting_platforms [of e p w]
  by (simp add: loop_state_def dispatch_of_def split_def)

lemma loop_state_Suc:
  assumes "k < length (platforms p)"
  shows "loop_state e (p, u) w (Suc k) = attempt e u (platforms p ! k) (loop_state e (p, u) w k)"
proof -
  have "take (Suc k) (platforms p) = take k (platforms p) @ [platforms p ! k]"
    using assms by (simp add: take_Suc_conv_app_nth)
  then show ?thesis
    using mark_posting_platforms [of e p w]
    by (simp add: loop_state_def split_def run_platforms_append)
qed

lemma loop_state_stored:
  assumes "fst (mark_posting e p w) = None"
  shows "posts (d_world (loop_state e (p, u) w k)) (post_id p) = Some (fst (snd (mark_posting e p w)))"
  using mark_posting_stored [OF assms] by (simp add: loop_state_def split_def)

lemma publishPost_first_save_fails:
  assumes "fst (mark_posting e p w) = Some err"
  shows "publishPost e (p, u) w = (Some err, snd (snd (mark_posting e p w)))"
  using assms by (cases "mark_posting e p w") (simp add: publishPost_def)

lemma publishPost_no_throw:
  assumes "\<forall>k. post_save_error e k = None"
  shows "fst (publishPost e pu w) = None"
  using assms
  by (cases "mark_posting e (fst pu) w")
     (simp add: publishPost_def mark_posting_def Post_save_def split_def Let_def)

lemma attempt_account:
  "publisherCalls (d_world (attempt e (Some usr) pl d))
     = publisherCalls (d_world d)
       @ (if attemptable usr pl
          then [(pl, the (connectedAccounts usr pl),
                 \<lparr>pc_text = body (content (d_post d)), pc_hashtags = hashtags (content (d_post d)),
                  pc_mentions = mentions (content (d_post d)), pc_media = media (d_post d)\<rparr>)]
          else [])
   \<and> (connectedAccounts usr pl = None \<longrightarrow>
        \<not> success (last (results (d_post (attempt e (Some usr) pl d))))
        \<and> error (last (results (d_post (attempt e (Some usr) pl d))))
            = Some (pl @ '' account not connected for user''))"
proof (cases "connectedAccounts usr pl")
  case None
  then show ?thesis
    by (simp add: attempt_def publishToPlatform_def attemptable_def Let_def split_def new_Date_def
        console_log_def tick_def Error_def)
next
  case (Some a)
  show ?thesis
  proof (cases "pl = ''twitter'' \<or> pl = ''linkedin'' \<or> pl = ''instagram''")
    case True
    then show ?thesis
      using Some
      by (cases "publisher e (calls (d_world d)) pl a
                   \<lparr>pc_text = body (content (d_post d)), pc_hashtags = hashtags (content (d_post d)),
                    pc_mentions = mentions (content (d_post d)), pc_media = media (d_post d)\<rparr>")
         (simp_all add: attempt_def publishToPlatform_def socialMediaService_publishPost_def
            attemptable_def Let_def split_def new_Date_def console_log_def tick_def)
  next
    case False
    then show ?thesis
      using Some
      by (simp add: attempt_def publishToPlatform_def socialMediaService_publishPost_def
          attemptable_def Let_def split_def new_Date_def console_log_def tick_def)
  qed
qed

lemma run_platforms_accounts:
  "\<exists>rs. d_post (run_platforms e (Some usr) pls d) = (d_post d)\<lparr>results := results (d_post d) @ rs\<rparr>
     \<and> map platform rs = pls
     \<and> (\<forall>r\<in>set rs. connectedAccounts usr (platform r) = None \<longrightarrow>
           \<not> success r \<and> error r = Some (platform r @ '' account not connected for user''))
     \<and> map fst (publisherCalls (d_world (run_platforms e (Some usr) pls d)))
         = map fst (publisherCalls (d_world d)) @ filter (attemptable usr) pls"
proof (induction pls arbitrary: d)
  case Nil
  show ?case by simp
next
  case (Cons pl pls)
  let ?next = "attempt e (Some usr) pl d"
  define r where "r = last (results (d_post ?next))"
  have r: "d_post ?next = (d_post d)\<lparr>results := results (d_post d) @ [r]\<rparr>" "platform r = pl"
    using attempt_last [of e "Some usr" pl d] unfolding r_def by simp_all
  have acc: "connectedAccounts usr pl = None \<longrightarrow>
        \<not> success r \<and> error r = Some (pl @ '' account not connected for user'')"
    and calls: "map fst (publisherCalls (d_world ?next))
        = map fst (publisherCalls (d_world d)) @ filter (attemptable usr) [pl]"
    using attempt_account [of e usr pl d] unfolding r_def by simp_all
  obtain rs where rs:
      "d_post (run_platforms e (Some usr) pls ?next) = (d_post ?next)\<lparr>results := results (d_post ?next) @ rs\<rparr>"
      "map platform rs = pls"
      "\<forall>r\<in>set rs. connectedAccounts usr (platform r) = None \<longrightarrow>
           \<not> success r \<and> error r = Some (platform r @ '' account not connected for user'')"
      "map fst (publisherCalls (d_world (run_platforms e (Some usr) pls ?next)))
         = map fst (publisherCalls (d_world ?next)) @ filter (attemptable usr) pls"
    using Cons.IH [of ?next] by blast
  have 1: "d_post (run_platforms e (Some usr) (pl # pls) d)
             = (d_post d)\<lparr>results := results (d_post d) @ (r # rs)\<rparr>"
    using rs(1) r(1) by simp
  have 2: "map platform (r # rs) = pl # pls"
    using rs(2) r(2) by simp
  have 3: "\<forall>x\<in>set (r # rs). connectedAccounts usr (platform x) = None \<longrightarrow>
           \<not> success x \<and> error x = Some (platform x @ '' account not connected for user'')"
    using rs(3) acc r(2) by simp
  have 4: "map fst (publisherCalls (d_world (run_platforms e (Some usr) (pl # pls) d)))
         = map fst (publisherCalls (d_world d)) @ filter (attemptable usr) (pl # pls)"
    using rs(4) calls by simp
  show ?case
    by (rule exI [of _ "r # rs"]) (intro conjI 1 2 3 4)
qed

section \<open>Failing writes of the attempt log\<close>












lemma publishPost_after_mark:
  assumes "fst (mark_posting e p w) = None"
  shows "publishPost e (p, u) w
           = Post_save e (fst (final_status e (dispatch_of e (p, u) w)))
               (snd (final_status e (dispatch_of e (p, u) w)))"
  using assms
  by (cases "mark_posting e p w") (simp add: publishPost_def dispatch_of_def split_def Let_def)











section \<open>The ids a tick dispatches\<close>

lemma length_post_ids: "length (post_ids pus) = length pus"
  by (induction pus) simp_all

lemma publishPost_dispatched:
  "dispatched (console (snd (publishPost e pu w))) = dispatched (console w) @ [post_id (fst pu)]"
proof (cases "fst (mark_posting e (fst pu) w)")
  case None
  have "publishPost e (fst pu, snd pu) w
           = Post_save e (fst (final_status e (dispatch_of e (fst pu, snd pu) w)))
               (snd (final_status e (dispatch_of e (fst pu, snd pu) w)))"
    using None by (rule publishPost_after_mark)
  then show ?thesis
    using Post_save_frame final_status_frame [of e "dispatch_of e pu w"]
      mark_posting_dispatched [of e "fst pu" w]
    by (simp add: dispatch_of_def split_def)
next
  case (Some err)
  then have "publishPost e (fst pu, snd pu) w = (Some err, snd (snd (mark_posting e (fst pu) w)))"
    by (rule publishPost_first_save_fails)
  then show ?thesis
    using mark_posting_dispatched [of e "fst pu" w] by simp
qed

lemma publish_each_dispatched:
  "\<exists>k. dispatched (console (snd (publish_each e pus w)))
          = dispatched (console w) @ take k (post_ids pus)
      \<and> (fst (publish_each e pus w) = None \<longrightarrow> k = length pus)"
proof (induction pus arbitrary: w)
  case Nil
  show ?case by simp
next
  case (Cons pu pus)
  obtain r w1 where pp: "publishPost e pu w = (r, w1)"
    by (cases "publishPost e pu w")
  have c1: "dispatched (console w1) = dispatched (console w) @ [post_id (fst pu)]"
    using publishPost_dispatched [of e pu w] pp by simp
  show ?case
  proof (cases r)
    case (Some err)
    show ?thesis
      by (rule exI [of _ 1]) (use Some pp c1 in simp)
  next
    case None
    obtain k where k: "dispatched (console (snd (publish_each e pus w1)))
          = dispatched (console w1) @ take k (post_ids pus)"
        "fst (publish_each e pus w1) = None \<longrightarrow> k = length pus"
      using Cons.IH [of w1] by (elim exE conjE) (rule that)
    show ?thesis
      by (rule exI [of _ "Suc k"]) (use None pp c1 k in simp)
  qed
qed

lemma publish_each_no_throw:
  assumes "\<forall>k. post_save_error e k = None"
  shows "fst (publish_each e pus w) = None"
proof (induction pus arbitrary: w)
  case Nil
  show ?case by simp
next
  case (Cons pu pus)
  obtain r w1 where pp: "publishPost e pu w = (r, w1)"
    by (cases "publishPost e pu w")
  have "r = None"
    using publishPost_no_throw [OF assms, of pu w] pp by simp
  then show ?case
    using pp Cons.IH [of w1] by simp
qed

lemma processScheduledPosts_dispatched:
  "\<exists>k. dispatched (console (processScheduledPosts e w))
          = dispatched (console w) @ take k (post_ids (tick_query e w))
      \<and> ((\<forall>i. post_save_error e i = None) \<longrightarrow> k = length (tick_query e w))"
proof (cases "post_find_error e (Suc (calls w))")
  case (Some err)
  have "tick_query e w = []"
    using Some by (simp add: tick_query_def query_result_def Post_find_due_def tick_def)
  moreover have "dispatched (console (processScheduledPosts e w)) = dispatched (console w)"
    using Some
    by (simp add: processScheduledPosts_def Post_find_due_def new_Date_def tick_def
        console_log_def dispatched_append)
  ultimately show ?thesis by simp
next
  case None
  let ?found = "tick_query e w"
  let ?w3 = "console_log (FoundPosts (length ?found)) (tick (tick w))"
  have run: "processScheduledPosts e w =
     (case publish_each e ?found ?w3 of
        (Some err, w4) \<Rightarrow> console_log (ErrorProcessing err) w4
      | (None, w4) \<Rightarrow> w4)"
    using None
    by (simp add: processScheduledPosts_def tick_query_def query_result_def Post_find_due_def
        new_Date_def tick_def Let_def)
  have d3: "dispatched (console ?w3) = dispatched (console w)"
    by (simp add: console_log_def tick_def dispatched_append)
  have fin: "dispatched (console (processScheduledPosts e w))
               = dispatched (console (snd (publish_each e ?found ?w3)))"
    by (cases "publish_each e ?found ?w3"; cases "fst (publish_each e ?found ?w3)")
       (simp_all add: run console_log_def dispatched_append)
  obtain k where k: "dispatched (console (snd (publish_each e ?found ?w3)))
          = dispatched (console ?w3) @ take k (post_ids ?found)"
      "fst (publish_each e ?found ?w3) = None \<longrightarrow> k = length ?found"
    using publish_each_dispatched [of e ?found ?w3] by (elim exE conjE) (rule that)
  have 1: "dispatched (console (processScheduledPosts e w))
          = dispatched (console w) @ take k (post_ids ?found)"
    using fin k(1) d3 by simp
  have 2: "(\<forall>i. post_save_error e i = None) \<longrightarrow> k = length ?found"
    using k(2) publish_each_no_throw [of e ?found ?w3] by simp
  show ?thesis
    by (rule exI [of _ k]) (intro conjI 1 2)
qed

lemma tick_query_dup: "post_ids (tick_query env_dup world0) = [1, 1]"
  by (simp add: tick_query_def query_result_def Post_find_due_def due_def tick_def
      env_dup_def env0_def world0_def post0_def)

lemma mark_posting_result:
  "fst (mark_posting e p w) = post_save_error e (Suc (calls w))"
  by (simp add: mark_posting_def Let_def new_Date_def console_log_def Post_save_def tick_def
      split_def split: option.splits)

lemma mark_posting_world_failed:
  "post_save_error e (Suc (calls w)) = Some err \<Longrightarrow>
   snd (snd (mark_posting e p w))
     = tick (tick (console_log (PublishingPost (post_id p) (platforms p)) w))"
  by (simp add: mark_posting_def Let_def new_Date_def console_log_def Post_save_def tick_def
      split_def)

lemma attempt_publisherCalls:
  "publisherCalls (d_world (attempt e u pl d))
     = publisherCalls (snd (publishToPlatform e (d_post d) u pl (d_world d)))"
proof -
  obtain r w1 where pw: "publishToPlatform e (d_post d) u pl (d_world d) = (r, w1)"
    by (cases "publishToPlatform e (d_post d) u pl (d_world d)")
  show ?thesis
    by (cases r) (simp_all add: attempt_def pw Let_def new_Date_def tick_def console_log_def)
qed

lemma final_status_lastAttempt:
  "lastAttempt (fst (final_status e d)) = lastAttempt (d_post d)"
  by (simp add: final_status_def Let_def new_Date_def split_def)

lemma loop_state_zero:
  "loop_state e (p, u) w 0
     = \<lparr>d_post = fst (snd (mark_posting e p w)), successCount = 0, failureCount = 0,
        d_world = snd (snd (mark_posting e p w))\<rparr>"
  by (simp add: loop_state_def split_def)

lemma publishPost_throws_save_error:
  "fst (publishPost e pu w) = Some err \<Longrightarrow> \<exists>i. post_save_error e i = Some err"
  by (cases "post_save_error e (Suc (calls w))")
     (auto simp: publishPost_def mark_posting_def Post_save_def new_Date_def console_log_def
        tick_def Let_def split_def split: option.splits)

lemma publish_each_throw:
  assumes "fst (publish_each e pus1 w) = None"
    and "fst (publishPost e pu (snd (publish_each e pus1 w))) = Some err"
  shows "publish_each e (pus1 @ pu # pus2) w = (Some err, snd (publishPost e pu (snd (publish_each e pus1 w))))"
  using assms
proof (induction pus1 arbitrary: w)
  case Nil
  then show ?case by (cases "publishPost e pu w") simp
next
  case (Cons q qs)
  obtain r w1 where pp: "publishPost e q w = (r, w1)"
    by (cases "publishPost e q w")
  have r: "r = None"
    using Cons.prems(1) pp by (cases r) simp_all
  show ?case
    using Cons.IH [of w1] Cons.prems pp r by simp
qed

lemma publish_each_returned:
  assumes "fst (publish_each e pus w) = None"
  shows "dispatched (console (snd (publish_each e pus w))) = dispatched (console w) @ post_ids pus"
proof -
  obtain k where k: "dispatched (console (snd (publish_each e pus w)))
          = dispatched (console w) @ take k (post_ids pus)"
      "fst (publish_each e pus w) = None \<longrightarrow> k = length pus"
    using publish_each_dispatched [of e pus w] by (elim exE conjE) (rule that)
  show ?thesis
    using k assms by (simp add: length_post_ids)
qed

lemma processScheduledPosts_loop:
  assumes "tick_query e w \<noteq> []"
  shows "processScheduledPosts e w =
     (case publish_each e (tick_query e w) (tick_loop_start e w) of
        (Some err, w4) \<Rightarrow> console_log (ErrorProcessing err) w4
      | (None, w4) \<Rightarrow> w4)"
proof (cases "post_find_error e (Suc (calls w))")
  case (Some err)
  then have "tick_query e w = []"
    by (simp add: tick_query_def query_result_def Post_find_due_def tick_def)
  then show ?thesis using assms by simp
next
  case None
  then show ?thesis
    by (simp add: processScheduledPosts_def tick_loop_start_def tick_query_def query_result_def
        Post_find_due_def new_Date_def tick_def Let_def)
qed

lemma tick_loop_start_dispatched:
  "dispatched (console (tick_loop_start e w)) = dispatched (console w)"
  by (simp add: tick_loop_start_def console_log_def tick_def dispatched_append)

section \<open>Evaluation on the concrete inputs\<close>

lemmas run_defs =
  publishPost_def dispatch_of_def mark_posting_def final_status_def attempt_def
  publishToPlatform_def socialMediaService_publishPost_def logPublishAttempt_def
  Post_save_def new_Date_def console_log_def tick_def error_code_def Error_def Let_def split_def

lemmas input_defs =
  env0_def world0_def post0_def post1_def post2_def post3_def user0_def acct0_def

lemma run_post0:
  "fst (publishPost env0 (post0, Some user0) world0) = None"
  "successCount (dispatch_of env0 (post0, Some user0) world0) = 1"
  by (simp_all add: run_defs input_defs)

lemma run_post1:
  "fst (publishPost env0 (post1, Some user0) world0) = None"
  "successCount (dispatch_of env0 (post1, Some user0) world0) = 0"
  "retry_now env0 (post1, Some user0) world0 = 5006"
  by (simp_all add: retry_now_def run_defs input_defs)

lemma run_post2:
  "fst (publishPost env0 (post2, Some user0) world0) = None"
  "successCount (dispatch_of env0 (post2, Some user0) world0) = 0"
  by (simp_all add: run_defs input_defs)

lemma run_post3:
  "fst (publishPost env0 (post3, Some user0) world0) = None"
  by (simp add: run_defs input_defs)

lemma tick_query_three:
  "tick_query env_order world_three
     = [(post1\<lparr>post_id := 3\<rparr>, Some user0), (post1, Some user0), (post1\<lparr>post_id := 2\<rparr>, Some user0)]"
  "tick_query env_throw world_three
     = [(post1\<lparr>post_id := 3\<rparr>, Some user0), (post1, Some user0), (post1\<lparr>post_id := 2\<rparr>, Some user0)]"
  by (simp_all add: tick_query_def query_result_def Post_find_due_def due_def tick_def
      env_throw_def env_order_def world_three_def env0_def world0_def post0_def post1_def)

lemma run_three:
  "fst (publish_each env_throw [(post1\<lparr>post_id := 3\<rparr>, Some user0)]
          (console_log (FoundPosts 3) (tick (tick world_three)))) = None"
  "fst (publishPost env_throw (post1, Some user0)
          (snd (publish_each env_throw [(post1\<lparr>post_id := 3\<rparr>, Some user0)]
                  (console_log (FoundPosts 3) (tick (tick world_three))))))
     = Some (Error ''store unavailable'')"
  by (simp_all add: run_defs env_throw_def env_order_def world_three_def input_defs)

section \<open>The status and retry policy\<close>

text \<open>
  Claim C1. When \<^verbatim>\<open>publishPost\<close> returns and at least one platform attempt of the
  dispatch succeeded (\<open>successCount > 0\<close>), however many failed, the stored post has
  status \<^verbatim>\<open>posted\<close>, its \<open>retryCount\<close> is the one it had before, and its \<open>results\<close>
  are the former ones followed by one Platform Result per target platform, in order, of
  which \<open>successCount\<close> are successes.
\<close>

theorem publishPost_partial_success:
  assumes "fst (publishPost e (p, u) w) = None"
    and "0 < successCount (dispatch_of e (p, u) w)"
  shows "\<exists>p' rs. posts (snd (publishPost e (p, u) w)) (post_id p) = Some p'
           \<and> status p' = ''posted''
           \<and> retryCount p' = retryCount p
           \<and> results p' = results p @ rs
           \<and> map platform rs = platforms p
           \<and> length (filter success rs) = successCount (dispatch_of e (p, u) w)"
proof -
  let ?d = "dispatch_of e (p, u) w"
  obtain rs where rs:
      "d_post ?d = p\<lparr>status := ''posting'', lastAttempt := Some (clock e (calls w)),
                     results := results p @ rs\<rparr>"
      "map platform rs = platforms p"
      "successCount ?d = length (filter success rs)"
    using dispatch_of_post [of e p u w] by blast
  have "posts (snd (publishPost e (p, u) w)) (post_id p) = Some ((d_post ?d)\<lparr>status := ''posted''\<rparr>)"
    using publishPost_returns [OF assms(1)] final_status_success [OF assms(2), of e] by simp
  then show ?thesis
    using rs by simp
qed

theorem publishPost_partial_success_witness:
  "fst (publishPost env0 (post0, Some user0) world0) = None
   \<and> successCount (dispatch_of env0 (post0, Some user0) world0) = 1
   \<and> (\<exists>p' rs. posts (snd (publishPost env0 (post0, Some user0) world0)) (post_id post0) = Some p'
           \<and> status p' = ''posted''
           \<and> retryCount p' = retryCount post0
           \<and> results p' = results post0 @ rs
           \<and> map platform rs = platforms post0
           \<and> length (filter success rs) = 1)"
  using publishPost_partial_success [of env0 post0 "Some user0" world0] run_post0 by simp

text \<open>
  Claim C2. When \<^verbatim>\<open>publishPost\<close> returns and no platform attempt of the dispatch
  succeeded (\<open>successCount = 0\<close>), the stored post has its \<open>retryCount\<close> incremented by
  one. If the new count is below 3 the status is \<^verbatim>\<open>scheduled\<close> and \<open>scheduledAt\<close> is the
  time of the dispatch (the clock read when the loop has ended) plus 15 minutes. Otherwise
  the status is \<^verbatim>\<open>failed\<close>, the filter of the due-post query rejects the stored post at
  every time, and no due-post query on the resulting store returns it.
\<close>

theorem publishPost_all_failed:
  assumes "fst (publishPost e (p, u) w) = None"
    and "successCount (dispatch_of e (p, u) w) = 0"
  shows "\<exists>p'. posts (snd (publishPost e (p, u) w)) (post_id p) = Some p'
           \<and> retryCount p' = retryCount p + 1
           \<and> (if retryCount p + 1 < 3
               then status p' = ''scheduled''
                    \<and> scheduledAt p' = retry_now e (p, u) w + 15 * 60 * 1000
               else status p' = ''failed''
                    \<and> (\<forall>now. \<not> due now p')
                    \<and> (\<forall>e2 now x. (p', x) \<notin> set (query_result e2 now (snd (publishPost e (p, u) w)))))"
proof -
  let ?d = "dispatch_of e (p, u) w"
  let ?p' = "fst (final_status e ?d)"
  obtain rs where rs:
      "d_post ?d = p\<lparr>status := ''posting'', lastAttempt := Some (clock e (calls w)),
                     results := results p @ rs\<rparr>"
    using dispatch_of_post [of e p u w] by blast
  have stored: "posts (snd (publishPost e (p, u) w)) (post_id p) = Some ?p'"
    using publishPost_returns [OF assms(1)] .
  have rc: "retryCount (d_post ?d) = retryCount p"
    using rs by simp
  have p': "?p' =
     (if retryCount p + 1 < 3
      then (d_post ?d)\<lparr>status := ''scheduled'', retryCount := retryCount p + 1,
                      scheduledAt := retry_now e (p, u) w + 15 * 60 * 1000\<rparr>
      else (d_post ?d)\<lparr>status := ''failed'', retryCount := retryCount p + 1\<rparr>)"
    using final_status_failure [OF assms(2), of e] rc by (simp add: retry_now_def)
  show ?thesis
  proof (cases "retryCount p + 1 < 3")
    case True
    then show ?thesis using stored p' by simp
  next
    case False
    then have "3 \<le> retryCount ?p'" using p' by simp
    then have nd: "\<And>now. \<not> due now ?p'" by (rule not_due_exhausted)
    then have "\<And>e2 now x. (?p', x) \<notin> set (query_result e2 now (snd (publishPost e (p, u) w)))"
      using query_result_due by blast
    then show ?thesis using stored p' nd False by simp
  qed
qed

theorem publishPost_all_failed_witness:
  "(\<exists>p'. posts (snd (publishPost env0 (post1, Some user0) world0)) 1 = Some p'
         \<and> retryCount p' = 1 \<and> status p' = ''scheduled'' \<and> scheduledAt p' = 5006 + 900000)
   \<and> (\<exists>p'. posts (snd (publishPost env0 (post2, Some user0) world0)) 1 = Some p'
         \<and> retryCount p' = 3 \<and> status p' = ''failed'' \<and> (\<forall>now. \<not> due now p'))"
proof -
  have a: "post_id post1 = 1" "retryCount post1 = 0" "post_id post2 = 1" "retryCount post2 = 2"
    by (simp_all add: input_defs)
  show ?thesis
    using publishPost_all_failed [of env0 post1 "Some user0" world0]
      publishPost_all_failed [of env0 post2 "Some user0" world0] run_post1 run_post2
    by (simp add: a) blast
qed

text \<open>
  Claim C10. When \<^verbatim>\<open>publishPost\<close> returns for a post whose list of target platforms is
  empty, no publisher was called, no attempt was logged and no Platform Result was
  appended, and the policy of the zero-success branch was applied: \<open>retryCount\<close> is
  incremented, and the post is rescheduled 15 minutes after the clock reading that follows
  the first save, or has status \<^verbatim>\<open>failed\<close> once the count reaches 3.
\<close>

theorem publishPost_no_platforms:
  assumes "platforms p = []"
    and "fst (publishPost e (p, u) w) = None"
  shows "\<exists>p'. posts (snd (publishPost e (p, u) w)) (post_id p) = Some p'
           \<and> results p' = results p
           \<and> publisherCalls (snd (publishPost e (p, u) w)) = publisherCalls w
           \<and> schedulerLogs (snd (publishPost e (p, u) w)) = schedulerLogs w
           \<and> retryCount p' = retryCount p + 1
           \<and> (if retryCount p + 1 < 3
               then status p' = ''scheduled''
                    \<and> scheduledAt p' = clock e (calls w + 2) + 15 * 60 * 1000
               else status p' = ''failed'')"
proof -
  let ?d = "dispatch_of e (p, u) w"
  let ?m = "mark_posting e p w"
  let ?p1 = "p\<lparr>status := ''posting'', lastAttempt := Some (clock e (calls w))\<rparr>"
  have d: "?d = \<lparr>d_post = ?p1, successCount = 0, failureCount = 0, d_world = snd (snd ?m)\<rparr>"
    using mark_posting_post [of e p w] assms(1) by (simp add: dispatch_of_def split_def)
  have stored: "posts (snd (publishPost e (p, u) w)) (post_id p) = Some (fst (final_status e ?d))"
    using publishPost_returns [OF assms(2)] .
  have p': "fst (final_status e ?d) =
     (if retryCount p + 1 < 3
      then ?p1\<lparr>status := ''scheduled'', retryCount := retryCount p + 1,
                scheduledAt := clock e (calls w + 2) + 15 * 60 * 1000\<rparr>
      else ?p1\<lparr>status := ''failed'', retryCount := retryCount p + 1\<rparr>)"
    using final_status_failure [of ?d e] mark_posting_frame [of e p w] by (simp add: d)
  have pc: "publisherCalls (snd (publishPost e (p, u) w)) = publisherCalls w"
    using publishPost_unfold [OF assms(2)] Post_save_frame final_status_frame [of e ?d]
      mark_posting_publisherCalls [of e p w] by (simp add: d)
  have sl: "schedulerLogs (snd (publishPost e (p, u) w)) = schedulerLogs w"
    using publishPost_unfold [OF assms(2)] Post_save_frame final_status_schedulerLogs [of e ?d]
      mark_posting_frame [of e p w] by (simp add: d)
  show ?thesis
    using stored p' pc sl by simp
qed

theorem publishPost_no_platforms_witness:
  "\<exists>p'. posts (snd (publishPost env0 (post3, Some user0) world0)) 1 = Some p'
        \<and> results p' = []
        \<and> publisherCalls (snd (publishPost env0 (post3, Some user0) world0)) = []
        \<and> retryCount p' = 1 \<and> status p' = ''scheduled'' \<and> scheduledAt p' = 5002 + 900000"
proof -
  have a: "platforms post3 = []" "post_id post3 = 1" "retryCount post3 = 0" "results post3 = []"
      "publisherCalls world0 = []" "calls world0 = 0" "clock env0 (Suc (Suc 0)) = 5002"
    by (simp_all add: input_defs)
  show ?thesis
    using publishPost_no_platforms [of post3 env0 "Some user0" world0] run_post3
    by (simp add: a) blast
qed

section \<open>Content limits\<close>

text \<open>
  Claim C9. For a platform identifier other than \<^verbatim>\<open>twitter\<close>, \<^verbatim>\<open>linkedin\<close> and
  \<^verbatim>\<open>instagram\<close>, \<^verbatim>\<open>validateContent\<close> returns \<^verbatim>\<open>{isValid: true, errors: []}\<close> for
  every content value, a missing one included.
\<close>

theorem validateContent_unknown_platform:
  assumes "p \<noteq> ''twitter''" "p \<noteq> ''linkedin''" "p \<noteq> ''instagram''"
  shows "validateContent p c = Inr \<lparr>isValid = True, errors = []\<rparr>"
  using assms
  by (simp add: validateContent_def getPlatformLimits_def exceeds_def Let_def split: option.splits)

theorem validateContent_unknown_platform_witness:
  "validateContent ''facebook'' (Some \<lparr>arg_text = Some (replicate 5000 CHR ''a''), arg_hashtags = None, arg_media = None\<rparr>)
     = Inr \<lparr>isValid = True, errors = []\<rparr>
   \<and> validateContent ''facebook'' None = Inr \<lparr>isValid = True, errors = []\<rparr>"
  using validateContent_unknown_platform [of "''facebook''"] by simp

section \<open>Lifecycle of the scheduling loop\<close>

text \<open>
  Claim C7. \<^verbatim>\<open>start()\<close> and \<^verbatim>\<open>stop()\<close> are idempotent: after a second \<^verbatim>\<open>start()\<close>
  the running flag, the held task and the registered tasks are those after the first one,
  and the second call only writes a line to the console; likewise for \<^verbatim>\<open>stop()\<close>. A
  \<^verbatim>\<open>start()\<close> while running changes nothing but the console and does not throw.
\<close>

theorem start_stop_idempotent:
  "running_state (start (start w)) = running_state (start w)
   \<and> getStatus (start (start w)) = getStatus (start w)
   \<and> start (start w) = console_log SchedulerAlreadyRunning (start w)
   \<and> running_state (stop (stop w)) = running_state (stop w)
   \<and> getStatus (stop (stop w)) = getStatus (stop w)
   \<and> stop (stop w) = console_log SchedulerStopped (stop w)
   \<and> (isRunning w \<longrightarrow> start w = console_log SchedulerAlreadyRunning w)"
proof -
  have r: "isRunning (start w)"
    by (simp add: start_def console_log_def cron_schedule_def Let_def)
  have s1: "start (start w) = console_log SchedulerAlreadyRunning (start w)"
    using r by (simp add: start_def [of "start w"])
  have c: "cronJob (stop w) = None"
    by (simp add: stop_def console_log_def cron_destroy_def Let_def split: option.splits)
  have nr: "\<not> isRunning (stop w)"
    by (simp add: stop_def console_log_def cron_destroy_def Let_def split: option.splits)
  have "(stop w)\<lparr>isRunning := False\<rparr> = stop w"
    using nr by (intro world.equality) simp_all
  then have s2: "stop (stop w) = console_log SchedulerStopped (stop w)"
    using c by (simp add: stop_def [of "stop w"] Let_def)
  have rs1: "running_state (start (start w)) = running_state (start w)"
    and gs1: "getStatus (start (start w)) = getStatus (start w)"
    by (simp_all add: s1 running_state_def getStatus_def console_log_def)
  have rs2: "running_state (stop (stop w)) = running_state (stop w)"
    and gs2: "getStatus (stop (stop w)) = getStatus (stop w)"
    by (simp_all add: s2 running_state_def getStatus_def console_log_def)
  have nop: "isRunning w \<longrightarrow> start w = console_log SchedulerAlreadyRunning w"
    by (simp add: start_def)
  show ?thesis
    using rs1 gs1 s1 rs2 gs2 s2 nop by blast
qed

theorem start_stop_idempotent_witness:
  "isRunning (start world0)
   \<and> running_state (start (start world0)) = (True, Some 0, [0])
   \<and> running_state (stop (stop (start world0))) = (False, None, [])
   \<and> start (start world0) = console_log SchedulerAlreadyRunning (start world0)"
proof -
  have a: "isRunning (start world0)" "running_state (start world0) = (True, Some 0, [0])"
      "running_state (stop (start world0)) = (False, None, [])"
    by (simp_all add: start_def stop_def running_state_def console_log_def cron_schedule_def
        cron_destroy_def world0_def Let_def)
  have b: "running_state (start (start world0)) = running_state (start world0)"
    using start_stop_idempotent [of world0] by blast
  have c: "running_state (stop (stop (start world0))) = running_state (stop (start world0))"
    using start_stop_idempotent [of "start world0"] by blast
  have d: "start (start world0) = console_log SchedulerAlreadyRunning (start world0)"
    using start_stop_idempotent [of "start world0"] a(1) by blast
  show ?thesis
    using a b c d by (intro conjI) simp_all
qed

section \<open>The post API\<close>

text \<open>
  Claim C8. An update and a delete request against a stored post whose status is
  \<^verbatim>\<open>posted\<close> are answered with an error response (status code 400 or above with an
  \<^verbatim>\<open>error\<close> body), and the Post collection is left as it was.
\<close>

theorem posted_post_immutable:
  assumes "posts w i = Some p" and "status p = ''posted''"
    and "params_id r = i" and "del_params_id r' = i"
  shows "is_error_response (fst (put_post e r w))
         \<and> posts (snd (put_post e r w)) = posts w
         \<and> is_error_response (fst (delete_post e r' w))
         \<and> posts (snd (delete_post e r' w)) = posts w"
proof -
  have put: "is_error_response (fst (put_post e r w)) \<and> posts (snd (put_post e r w)) = posts w"
    using assms(1-3)
    by (simp add: put_post_def Post_findOne_def put_failed_def is_error_response_def
        console_log_def tick_def split: option.splits)
  have del: "is_error_response (fst (delete_post e r' w)) \<and> posts (snd (delete_post e r' w)) = posts w"
    using assms(1,2,4)
    by (simp add: delete_post_def Post_findOne_def is_error_response_def
        console_log_def tick_def Let_def split: option.splits)
  show ?thesis using put del by simp
qed

theorem posted_post_immutable_witness:
  "status_code (fst (put_post env0 put0 world_posted)) = 400
   \<and> is_error_response (fst (put_post env0 put0 world_posted))
   \<and> posts (snd (put_post env0 put0 world_posted)) = posts world_posted
   \<and> status_code (fst (delete_post env0 delete0 world_posted)) = 400
   \<and> is_error_response (fst (delete_post env0 delete0 world_posted))
   \<and> posts (snd (delete_post env0 delete0 world_posted)) = posts world_posted"
proof -
  have a: "posts world_posted 1 = Some (post0\<lparr>status := ''posted''\<rparr>)"
      "status (post0\<lparr>status := ''posted''\<rparr>) = ''posted''"
      "params_id put0 = 1" "del_params_id delete0 = 1"
    by (simp_all add: world_posted_def world0_def put0_def delete0_def)
  have b: "status_code (fst (put_post env0 put0 world_posted)) = 400"
    by (simp add: put_post_def put_validation_def Post_findOne_def world_posted_def world0_def
        post0_def put0_def env0_def tick_def)
  have c: "status_code (fst (delete_post env0 delete0 world_posted)) = 400"
    by (simp add: delete_post_def Post_findOne_def world_posted_def world0_def
        post0_def delete0_def env0_def tick_def Let_def)
  show ?thesis
    using posted_post_immutable [OF a, of env0] b c by simp
qed

section \<open>Missing accounts\<close>

text \<open>
  Claim C4. When the owner has no Connected Account for a target platform of the post and
  the store writes succeed, \<^verbatim>\<open>publishPost\<close> returns without throwing; the stored post
  has one new Platform Result per target platform, in order; every result for the platform
  without account (there is at least one) has \<open>success = false\<close> and the error
  \<^verbatim>\<open>"<platform> account not connected for user"\<close>; and the publisher was called for
  exactly the other target platforms that are connected and supported.
\<close>

theorem missing_account_recorded:
  assumes "connectedAccounts usr pl = None"
    and "pl \<in> set (platforms p)"
    and "\<forall>k. post_save_error e k = None"
  shows "fst (publishPost e (p, Some usr) w) = None
         \<and> (\<exists>p' rs. posts (snd (publishPost e (p, Some usr) w)) (post_id p) = Some p'
               \<and> results p' = results p @ rs
               \<and> map platform rs = platforms p
               \<and> (\<exists>r\<in>set rs. platform r = pl)
               \<and> (\<forall>r\<in>set rs. platform r = pl \<longrightarrow>
                     \<not> success r \<and> error r = Some (pl @ '' account not connected for user'')))
         \<and> map fst (publisherCalls (snd (publishPost e (p, Some usr) w)))
             = map fst (publisherCalls w) @ filter (attemptable usr) (platforms p)"
proof -
  let ?pu = "(p, Some usr)"
  let ?d = "dispatch_of e ?pu w"
  let ?m = "mark_posting e p w"
  let ?init = "\<lparr>d_post = fst (snd ?m), successCount = 0, failureCount = 0, d_world = snd (snd ?m)\<rparr>"
  have ok: "fst (publishPost e ?pu w) = None"
    using publishPost_no_throw [OF assms(3)] .
  have d: "?d = run_platforms e (Some usr) (platforms p) ?init"
    using mark_posting_platforms [of e p w] by (simp add: dispatch_of_def split_def)
  obtain rs where rs:
      "d_post ?d = (d_post ?init)\<lparr>results := results (d_post ?init) @ rs\<rparr>"
      "map platform rs = platforms p"
      "\<forall>r\<in>set rs. connectedAccounts usr (platform r) = None \<longrightarrow>
           \<not> success r \<and> error r = Some (platform r @ '' account not connected for user'')"
      "map fst (publisherCalls (d_world ?d))
         = map fst (publisherCalls (d_world ?init)) @ filter (attemptable usr) (platforms p)"
    using run_platforms_accounts [of e usr "platforms p" ?init] d by auto
  let ?p' = "fst (final_status e ?d)"
  have stored: "posts (snd (publishPost e ?pu w)) (post_id p) = Some ?p'"
    using publishPost_returns [OF ok] .
  have res: "results ?p' = results p @ rs"
    using final_status_frame [of e ?d] rs(1) by (simp add: mark_posting_post)
  have ex: "\<exists>r\<in>set rs. platform r = pl"
  proof -
    have "pl \<in> set (map platform rs)" using assms(2) rs(2) by simp
    then show ?thesis by auto
  qed
  have fail: "\<forall>r\<in>set rs. platform r = pl \<longrightarrow>
                     \<not> success r \<and> error r = Some (pl @ '' account not connected for user'')"
    using rs(3) assms(1) by auto
  have pc: "map fst (publisherCalls (snd (publishPost e ?pu w)))
             = map fst (publisherCalls w) @ filter (attemptable usr) (platforms p)"
    using publishPost_unfold [OF ok] Post_save_frame final_status_frame [of e ?d]
      mark_posting_publisherCalls [of e p w] rs(4) by simp
  have "\<exists>p' rs. posts (snd (publishPost e ?pu w)) (post_id p) = Some p'
               \<and> results p' = results p @ rs
               \<and> map platform rs = platforms p
               \<and> (\<exists>r\<in>set rs. platform r = pl)
               \<and> (\<forall>r\<in>set rs. platform r = pl \<longrightarrow>
                     \<not> success r \<and> error r = Some (pl @ '' account not connected for user''))"
    by (rule exI [of _ ?p'], rule exI [of _ rs]) (intro conjI stored res rs(2) ex fail)
  then show ?thesis
    using ok pc by simp
qed

theorem missing_account_recorded_witness:
  "fst (publishPost env0 (post0, Some user0) world0) = None
   \<and> (\<exists>p' rs. posts (snd (publishPost env0 (post0, Some user0) world0)) 1 = Some p'
         \<and> results p' = rs
         \<and> map platform rs = [''twitter'', ''linkedin'']
         \<and> (\<exists>r\<in>set rs. platform r = ''linkedin'' \<and> \<not> success r
               \<and> error r = Some ''linkedin account not connected for user''))
   \<and> map fst (publisherCalls (snd (publishPost env0 (post0, Some user0) world0))) = [''twitter'']"
proof -
  have a: "connectedAccounts user0 ''linkedin'' = None" "''linkedin'' \<in> set (platforms post0)"
      "\<forall>k. post_save_error env0 k = None"
    by (simp_all add: input_defs)
  have b: "post_id post0 = 1" "results post0 = []" "platforms post0 = [''twitter'', ''linkedin'']"
      "publisherCalls world0 = []"
    by (simp_all add: input_defs)
  have c: "attemptable user0 ''twitter''" "\<not> attemptable user0 ''linkedin''"
    by (simp_all add: user0_def attemptable_def)
  note th = missing_account_recorded [OF a, of world0]
  have ok: "fst (publishPost env0 (post0, Some user0) world0) = None"
    using th [THEN conjunct1] .
  have pc: "map fst (publisherCalls (snd (publishPost env0 (post0, Some user0) world0))) = [''twitter'']"
    using th [THEN conjunct2, THEN conjunct2] by (simp add: b c)
  obtain p' rs where p:
      "posts (snd (publishPost env0 (post0, Some user0) world0)) (post_id post0) = Some p'"
      "results p' = results post0 @ rs"
      "map platform rs = platforms post0"
      "\<exists>r\<in>set rs. platform r = ''linkedin''"
      "\<forall>r\<in>set rs. platform r = ''linkedin'' \<longrightarrow>
          \<not> success r \<and> error r = Some (''linkedin'' @ '' account not connected for user'')"
    using th [THEN conjunct2, THEN conjunct1] by (elim exE conjE) (rule that)
  obtain r where r: "r \<in> set rs" "platform r = ''linkedin''"
    using p(4) by (elim bexE) (rule that)
  have r2: "\<not> success r" "error r = Some ''linkedin account not connected for user''"
    using p(5) r by simp_all
  have ex: "\<exists>r\<in>set rs. platform r = ''linkedin'' \<and> \<not> success r
               \<and> error r = Some ''linkedin account not connected for user''"
    by (rule bexI [of _ r]) (intro conjI r r2)+
  have "\<exists>p' rs. posts (snd (publishPost env0 (post0, Some user0) world0)) 1 = Some p'
         \<and> results p' = rs
         \<and> map platform rs = [''twitter'', ''linkedin'']
         \<and> (\<exists>r\<in>set rs. platform r = ''linkedin'' \<and> \<not> success r
               \<and> error r = Some ''linkedin account not connected for user'')"
    by (rule exI [of _ p'], rule exI [of _ rs]) (use p(1-3) ex in \<open>simp add: b\<close>)
  then show ?thesis
    using ok pc by simp
qed

section \<open>Best-effort attempt log\<close>



section \<open>The advisory lock\<close>

text \<open>
  Claim C6. In every execution of \<^verbatim>\<open>publishPost\<close> the post is saved with status
  \<^verbatim>\<open>posting\<close> and \<open>lastAttempt\<close> set to the clock reading before any publisher is
  called. If that save throws, \<^verbatim>\<open>publishPost\<close> throws the same error at once: the store
  is as it was and no publisher was called. If it succeeds, \<^verbatim>\<open>publishPost\<close> is the final
  save applied to what the status policy makes of the last state of the platform loop; the
  loop starts with no publisher called yet and the post stored as \<^verbatim>\<open>posting\<close>; no state
  of the loop has another store; each iteration calls the publisher from the loop state
  before it; \<^verbatim>\<open>publishPost\<close> makes no publisher call outside the loop; when it throws
  after the first save the store still holds the post as \<^verbatim>\<open>posting\<close>; and when it
  returns the stored post carries that \<open>lastAttempt\<close>.
\<close>

theorem posting_persisted_before_attempts:
  "status (fst (snd (mark_posting e p w))) = ''posting''
   \<and> lastAttempt (fst (snd (mark_posting e p w))) = Some (clock e (calls w))
   \<and> publisherCalls (snd (snd (mark_posting e p w))) = publisherCalls w
   \<and> (\<forall>err. fst (mark_posting e p w) = Some err \<longrightarrow>
         publishPost e (p, u) w = (Some err, snd (snd (mark_posting e p w))))
   \<and> (fst (mark_posting e p w) = None \<longrightarrow>
         (\<forall>k. \<exists>q. posts (d_world (loop_state e (p, u) w k)) (post_id p) = Some q
                  \<and> status q = ''posting'' \<and> lastAttempt q = Some (clock e (calls w))))
   \<and> loop_state e (p, u) w (length (platforms p)) = dispatch_of e (p, u) w
   \<and> (\<forall>k < length (platforms p).
         loop_state e (p, u) w (Suc k) = attempt e u (platforms p ! k) (loop_state e (p, u) w k))
   \<and> (\<forall>err. post_save_error e (Suc (calls w)) = Some err \<longrightarrow>
         publishPost e (p, u) w
           = (Some err, tick (tick (console_log (PublishingPost (post_id p) (platforms p)) w)))
         \<and> posts (snd (publishPost e (p, u) w)) = posts w
         \<and> publisherCalls (snd (publishPost e (p, u) w)) = publisherCalls w)
   \<and> (post_save_error e (Suc (calls w)) = None \<longrightarrow>
         publishPost e (p, u) w
           = Post_save e
               (fst (final_status e (loop_state e (p, u) w (length (platforms p)))))
               (snd (final_status e (loop_state e (p, u) w (length (platforms p)))))
         \<and> publisherCalls (d_world (loop_state e (p, u) w 0)) = publisherCalls w
         \<and> posts (d_world (loop_state e (p, u) w 0)) (post_id p)
             = Some (p\<lparr>status := ''posting'', lastAttempt := Some (clock e (calls w))\<rparr>)
         \<and> (\<forall>k. posts (d_world (loop_state e (p, u) w k)) = posts (d_world (loop_state e (p, u) w 0)))
         \<and> (\<forall>k < length (platforms p).
               publisherCalls (d_world (loop_state e (p, u) w (Suc k)))
                 = publisherCalls (snd (publishToPlatform e (d_post (loop_state e (p, u) w k)) u
                                         (platforms p ! k) (d_world (loop_state e (p, u) w k)))))
         \<and> publisherCalls (snd (publishPost e (p, u) w))
             = publisherCalls (d_world (loop_state e (p, u) w (length (platforms p))))
         \<and> (\<forall>err. fst (publishPost e (p, u) w) = Some err \<longrightarrow>
               posts (snd (publishPost e (p, u) w)) (post_id p)
                 = Some (p\<lparr>status := ''posting'', lastAttempt := Some (clock e (calls w))\<rparr>))
         \<and> (fst (publishPost e (p, u) w) = None \<longrightarrow>
               (\<exists>q. posts (snd (publishPost e (p, u) w)) (post_id p) = Some q
                    \<and> lastAttempt q = Some (clock e (calls w)))))"
proof -
  let ?m = "mark_posting e p w"
  let ?p1 = "fst (snd ?m)"
  let ?n = "length (platforms p)"
  let ?L = "loop_state e (p, u) w"
  let ?posting = "p\<lparr>status := ''posting'', lastAttempt := Some (clock e (calls w))\<rparr>"
  have p1: "?p1 = ?posting"
    by (rule mark_posting_post)
  have a: "status ?p1 = ''posting''" "lastAttempt ?p1 = Some (clock e (calls w))"
    by (simp_all add: p1)
  have b: "publisherCalls (snd (snd ?m)) = publisherCalls w"
    by (rule mark_posting_publisherCalls)
  have c: "\<forall>err. fst ?m = Some err \<longrightarrow> publishPost e (p, u) w = (Some err, snd (snd ?m))"
    using publishPost_first_save_fails by blast
  have d: "fst ?m = None \<longrightarrow>
         (\<forall>k. \<exists>q. posts (d_world (?L k)) (post_id p) = Some q
                  \<and> status q = ''posting'' \<and> lastAttempt q = Some (clock e (calls w)))"
    using loop_state_stored a by blast
  have f: "\<forall>k < ?n. ?L (Suc k) = attempt e u (platforms p ! k) (?L k)"
    using loop_state_Suc by blast
  have full: "?L ?n = dispatch_of e (p, u) w"
    by (rule loop_state_full)
  have g: "\<forall>err. post_save_error e (Suc (calls w)) = Some err \<longrightarrow>
         publishPost e (p, u) w
           = (Some err, tick (tick (console_log (PublishingPost (post_id p) (platforms p)) w)))
         \<and> posts (snd (publishPost e (p, u) w)) = posts w
         \<and> publisherCalls (snd (publishPost e (p, u) w)) = publisherCalls w"
  proof (intro allI impI)
    fix err
    assume err: "post_save_error e (Suc (calls w)) = Some err"
    then have "fst ?m = Some err"
      by (simp add: mark_posting_result)
    then have "publishPost e (p, u) w = (Some err, snd (snd ?m))"
      by (rule publishPost_first_save_fails)
    then have eq: "publishPost e (p, u) w
           = (Some err, tick (tick (console_log (PublishingPost (post_id p) (platforms p)) w)))"
      using mark_posting_world_failed [OF err, of p] by simp
    show "publishPost e (p, u) w
           = (Some err, tick (tick (console_log (PublishingPost (post_id p) (platforms p)) w)))
         \<and> posts (snd (publishPost e (p, u) w)) = posts w
         \<and> publisherCalls (snd (publishPost e (p, u) w)) = publisherCalls w"
      by (simp add: eq tick_def console_log_def)
  qed
  have h: "post_save_error e (Suc (calls w)) = None \<longrightarrow>
         publishPost e (p, u) w
           = Post_save e (fst (final_status e (?L ?n))) (snd (final_status e (?L ?n)))
         \<and> publisherCalls (d_world (?L 0)) = publisherCalls w
         \<and> posts (d_world (?L 0)) (post_id p) = Some ?posting
         \<and> (\<forall>k. posts (d_world (?L k)) = posts (d_world (?L 0)))
         \<and> (\<forall>k < ?n.
               publisherCalls (d_world (?L (Suc k)))
                 = publisherCalls (snd (publishToPlatform e (d_post (?L k)) u
                                         (platforms p ! k) (d_world (?L k)))))
         \<and> publisherCalls (snd (publishPost e (p, u) w)) = publisherCalls (d_world (?L ?n))
         \<and> (\<forall>err. fst (publishPost e (p, u) w) = Some err \<longrightarrow>
               posts (snd (publishPost e (p, u) w)) (post_id p) = Some ?posting)
         \<and> (fst (publishPost e (p, u) w) = None \<longrightarrow>
               (\<exists>q. posts (snd (publishPost e (p, u) w)) (post_id p) = Some q
                    \<and> lastAttempt q = Some (clock e (calls w))))"
  proof
    assume "post_save_error e (Suc (calls w)) = None"
    then have ok: "fst ?m = None"
      by (simp add: mark_posting_result)
    have 1: "publishPost e (p, u) w
           = Post_save e (fst (final_status e (?L ?n))) (snd (final_status e (?L ?n)))"
      using publishPost_after_mark [OF ok, of u] by (simp add: full)
    have 2: "publisherCalls (d_world (?L 0)) = publisherCalls w"
      by (simp add: loop_state_zero b)
    have st: "\<And>k. posts (d_world (?L k)) (post_id p) = Some ?posting"
      using loop_state_stored [OF ok, of u] p1 by simp
    have 3: "posts (d_world (?L 0)) (post_id p) = Some ?posting"
      by (rule st)
    have 4: "\<forall>k. posts (d_world (?L k)) = posts (d_world (?L 0))"
      by (simp add: loop_state_def split_def)
    have 5: "\<forall>k < ?n.
               publisherCalls (d_world (?L (Suc k)))
                 = publisherCalls (snd (publishToPlatform e (d_post (?L k)) u
                                         (platforms p ! k) (d_world (?L k))))"
      using f by (simp add: attempt_publisherCalls)
    have 6: "publisherCalls (snd (publishPost e (p, u) w)) = publisherCalls (d_world (?L ?n))"
      using Post_save_frame final_status_frame [of e "?L ?n"] by (simp add: 1)
    have 7: "\<forall>err. fst (publishPost e (p, u) w) = Some err \<longrightarrow>
               posts (snd (publishPost e (p, u) w)) (post_id p) = Some ?posting"
    proof (intro allI impI)
      fix err
      assume "fst (publishPost e (p, u) w) = Some err"
      then have "posts (snd (publishPost e (p, u) w)) = posts (snd (final_status e (?L ?n)))"
        by (simp add: 1 Post_save_def tick_def split: option.splits)
      then show "posts (snd (publishPost e (p, u) w)) (post_id p) = Some ?posting"
        using final_status_frame [of e "?L ?n"] st [of ?n] by simp
    qed
    have 8: "fst (publishPost e (p, u) w) = None \<longrightarrow>
               (\<exists>q. posts (snd (publishPost e (p, u) w)) (post_id p) = Some q
                    \<and> lastAttempt q = Some (clock e (calls w)))"
    proof
      assume ret: "fst (publishPost e (p, u) w) = None"
      obtain rs where "d_post (dispatch_of e (p, u) w)
          = p\<lparr>status := ''posting'', lastAttempt := Some (clock e (calls w)),
               results := results p @ rs\<rparr>"
        using dispatch_of_post [of e p u w] by (elim exE conjE) (rule that)
      then have "lastAttempt (fst (final_status e (dispatch_of e (p, u) w))) = Some (clock e (calls w))"
        by (simp add: final_status_lastAttempt)
      then show "\<exists>q. posts (snd (publishPost e (p, u) w)) (post_id p) = Some q
                    \<and> lastAttempt q = Some (clock e (calls w))"
        using publishPost_returns [OF ret] by simp
    qed
    show "publishPost e (p, u) w
           = Post_save e (fst (final_status e (?L ?n))) (snd (final_status e (?L ?n)))
         \<and> publisherCalls (d_world (?L 0)) = publisherCalls w
         \<and> posts (d_world (?L 0)) (post_id p) = Some ?posting
         \<and> (\<forall>k. posts (d_world (?L k)) = posts (d_world (?L 0)))
         \<and> (\<forall>k < ?n.
               publisherCalls (d_world (?L (Suc k)))
                 = publisherCalls (snd (publishToPlatform e (d_post (?L k)) u
                                         (platforms p ! k) (d_world (?L k)))))
         \<and> publisherCalls (snd (publishPost e (p, u) w)) = publisherCalls (d_world (?L ?n))
         \<and> (\<forall>err. fst (publishPost e (p, u) w) = Some err \<longrightarrow>
               posts (snd (publishPost e (p, u) w)) (post_id p) = Some ?posting)
         \<and> (fst (publishPost e (p, u) w) = None \<longrightarrow>
               (\<exists>q. posts (snd (publishPost e (p, u) w)) (post_id p) = Some q
                    \<and> lastAttempt q = Some (clock e (calls w))))"
      by (intro conjI 1 2 3 4 5 6 7 8)
  qed
  show ?thesis
    by (intro conjI a b c d full f g h)
qed

theorem posting_persisted_before_attempts_witness:
  "publishPost env_savefail (post0, Some user0) world0
     = (Some (Error ''store unavailable''),
        tick (tick (console_log (PublishingPost 1 [''twitter'', ''linkedin'']) world0)))
   \<and> posts (snd (publishPost env_savefail (post0, Some user0) world0)) = posts world0
   \<and> publisherCalls (snd (publishPost env_savefail (post0, Some user0) world0)) = []
   \<and> posts (d_world (loop_state env0 (post0, Some user0) world0 1)) 1
       = Some (post0\<lparr>status := ''posting'', lastAttempt := Some 5000\<rparr>)
   \<and> publisherCalls (snd (publishPost env0 (post0, Some user0) world0))
       = publisherCalls (d_world (loop_state env0 (post0, Some user0) world0 2))
   \<and> (\<exists>q. posts (snd (publishPost env0 (post0, Some user0) world0)) 1 = Some q
          \<and> lastAttempt q = Some 5000)"
proof -
  have f: "post_save_error env_savefail (Suc (calls world0)) = Some (Error ''store unavailable'')"
    by (simp add: env_savefail_def env0_def world0_def)
  have s: "post_save_error env0 (Suc (calls world0)) = None"
    by (simp add: env0_def)
  have v: "post_id post0 = 1" "platforms post0 = [''twitter'', ''linkedin'']"
      "clock env0 (calls world0) = 5000" "publisherCalls world0 = []"
    by (simp_all add: input_defs)
  note A = posting_persisted_before_attempts [of env_savefail post0 world0 "Some user0",
      THEN conjunct2, THEN conjunct2, THEN conjunct2, THEN conjunct2, THEN conjunct2,
      THEN conjunct2, THEN conjunct2, THEN conjunct1,
      THEN spec [of _ "Error ''store unavailable''"], THEN mp, OF f]
  note B = posting_persisted_before_attempts [of env0 post0 world0 "Some user0",
      THEN conjunct2, THEN conjunct2, THEN conjunct2, THEN conjunct2, THEN conjunct2,
      THEN conjunct2, THEN conjunct2, THEN conjunct2, THEN mp, OF s]
  have 1: "publishPost env_savefail (post0, Some user0) world0
     = (Some (Error ''store unavailable''),
        tick (tick (console_log (PublishingPost 1 [''twitter'', ''linkedin'']) world0)))"
    using A [THEN conjunct1] by (simp add: v)
  have 2: "posts (snd (publishPost env_savefail (post0, Some user0) world0)) = posts world0"
    using A [THEN conjunct2, THEN conjunct1] .
  have 3: "publisherCalls (snd (publishPost env_savefail (post0, Some user0) world0)) = []"
    using A [THEN conjunct2, THEN conjunct2] by (simp add: v)
  have 4: "posts (d_world (loop_state env0 (post0, Some user0) world0 1)) 1
       = Some (post0\<lparr>status := ''posting'', lastAttempt := Some 5000\<rparr>)"
    using B [THEN conjunct2, THEN conjunct2, THEN conjunct1]
      B [THEN conjunct2, THEN conjunct2, THEN conjunct2, THEN conjunct1, THEN spec [of _ 1]]
    by (simp add: v)
  have 5: "publisherCalls (snd (publishPost env0 (post0, Some user0) world0))
       = publisherCalls (d_world (loop_state env0 (post0, Some user0) world0 2))"
    using B [THEN conjunct2, THEN conjunct2, THEN conjunct2, THEN conjunct2, THEN conjunct2,
        THEN conjunct1]
    by (simp add: v numeral_2_eq_2)
  have 6: "\<exists>q. posts (snd (publishPost env0 (post0, Some user0) world0)) 1 = Some q
          \<and> lastAttempt q = Some 5000"
    using B [THEN conjunct2, THEN conjunct2, THEN conjunct2, THEN conjunct2, THEN conjunct2,
        THEN conjunct2, THEN conjunct2] run_post0(1)
    by (simp add: v)
  show ?thesis
    by (intro conjI 1 2 3 4 5 6)
qed

section \<open>One tick\<close>

text \<open>
  Claim C3, as the code has it. Within one tick the ids handed to \<^verbatim>\<open>publishPost\<close> are
  an initial part of the ids of the list the due-post query returned, in its order, one
  call per entry. When the calls for the first entries return and the call for the next
  entry throws, which only a failing store write makes it do, the tick has dispatched
  exactly those entries and that one, the later entries are not dispatched, and the tick
  ends by writing the error to the console. When every call returns, in particular when no
  store write fails, every entry is dispatched. The tick does not deduplicate, so no id is
  dispatched more than once provided the list returned by the query holds no repeated id.
\<close>

theorem tick_dispatches_query_result:
  "(\<exists>k. tick_dispatched e w = take k (post_ids (tick_query e w)))
   \<and> ((\<forall>i. post_save_error e i = None) \<longrightarrow>
        tick_dispatched e w = post_ids (tick_query e w))
   \<and> (distinct (post_ids (tick_query e w)) \<longrightarrow> distinct (tick_dispatched e w))
   \<and> (\<forall>pus1 pu pus2 err.
         tick_query e w = pus1 @ pu # pus2
         \<and> fst (publish_each e pus1 (tick_loop_start e w)) = None
         \<and> fst (publishPost e pu (snd (publish_each e pus1 (tick_loop_start e w)))) = Some err
         \<longrightarrow> tick_dispatched e w = post_ids pus1 @ [post_id (fst pu)]
             \<and> processScheduledPosts e w
                 = console_log (ErrorProcessing err)
                     (snd (publishPost e pu (snd (publish_each e pus1 (tick_loop_start e w)))))
             \<and> (\<exists>i. post_save_error e i = Some err))
   \<and> (fst (publish_each e (tick_query e w) (tick_loop_start e w)) = None \<longrightarrow>
        tick_dispatched e w = post_ids (tick_query e w))"
proof -
  obtain k where k: "dispatched (console (processScheduledPosts e w))
          = dispatched (console w) @ take k (post_ids (tick_query e w))"
      "(\<forall>i. post_save_error e i = None) \<longrightarrow> k = length (tick_query e w)"
    using processScheduledPosts_dispatched [of e w] by (elim exE conjE) (rule that)
  have td: "tick_dispatched e w = take k (post_ids (tick_query e w))"
    using k(1) by (simp add: tick_dispatched_def)
  have 1: "\<exists>k. tick_dispatched e w = take k (post_ids (tick_query e w))"
    by (rule exI [of _ k]) (rule td)
  have 2: "(\<forall>i. post_save_error e i = None) \<longrightarrow>
        tick_dispatched e w = post_ids (tick_query e w)"
    using td k(2) by (simp add: length_post_ids)
  have 3: "distinct (post_ids (tick_query e w)) \<longrightarrow> distinct (tick_dispatched e w)"
    using td by simp
  have 4: "\<forall>pus1 pu pus2 err.
         tick_query e w = pus1 @ pu # pus2
         \<and> fst (publish_each e pus1 (tick_loop_start e w)) = None
         \<and> fst (publishPost e pu (snd (publish_each e pus1 (tick_loop_start e w)))) = Some err
         \<longrightarrow> tick_dispatched e w = post_ids pus1 @ [post_id (fst pu)]
             \<and> processScheduledPosts e w
                 = console_log (ErrorProcessing err)
                     (snd (publishPost e pu (snd (publish_each e pus1 (tick_loop_start e w)))))
             \<and> (\<exists>i. post_save_error e i = Some err)"
  proof (intro allI impI, elim conjE)
    fix pus1 pu pus2 err
    let ?w3 = "tick_loop_start e w"
    let ?w1 = "snd (publish_each e pus1 ?w3)"
    let ?w2 = "snd (publishPost e pu ?w1)"
    assume q: "tick_query e w = pus1 @ pu # pus2"
      and ret: "fst (publish_each e pus1 ?w3) = None"
      and thr: "fst (publishPost e pu ?w1) = Some err"
    have pe: "publish_each e (tick_query e w) ?w3 = (Some err, ?w2)"
      using publish_each_throw [OF ret thr, of pus2] q by simp
    have ne: "tick_query e w \<noteq> []"
      using q by simp
    have run: "processScheduledPosts e w = console_log (ErrorProcessing err) ?w2"
      using processScheduledPosts_loop [OF ne] pe by simp
    have "dispatched (console ?w2) = dispatched (console ?w1) @ [post_id (fst pu)]"
      by (rule publishPost_dispatched)
    moreover have "dispatched (console ?w1) = dispatched (console w) @ post_ids pus1"
      using publish_each_returned [OF ret] by (simp add: tick_loop_start_dispatched)
    ultimately have "dispatched (console (processScheduledPosts e w))
        = dispatched (console w) @ post_ids pus1 @ [post_id (fst pu)]"
      by (simp add: run console_log_def dispatched_append)
    then have disp: "tick_dispatched e w = post_ids pus1 @ [post_id (fst pu)]"
      by (simp add: tick_dispatched_def)
    have sv: "\<exists>i. post_save_error e i = Some err"
      using thr by (rule publishPost_throws_save_error)
    show "tick_dispatched e w = post_ids pus1 @ [post_id (fst pu)]
             \<and> processScheduledPosts e w = console_log (ErrorProcessing err) ?w2
             \<and> (\<exists>i. post_save_error e i = Some err)"
      by (intro conjI disp run sv)
  qed
  have 5: "fst (publish_each e (tick_query e w) (tick_loop_start e w)) = None \<longrightarrow>
        tick_dispatched e w = post_ids (tick_query e w)"
  proof
    let ?w3 = "tick_loop_start e w"
    assume ret: "fst (publish_each e (tick_query e w) ?w3) = None"
    show "tick_dispatched e w = post_ids (tick_query e w)"
    proof (cases "tick_query e w = []")
      case True
      then show ?thesis using td by simp
    next
      case False
      have "processScheduledPosts e w = snd (publish_each e (tick_query e w) ?w3)"
        using processScheduledPosts_loop [OF False] ret
        by (cases "publish_each e (tick_query e w) ?w3") simp
      then have "dispatched (console (processScheduledPosts e w))
          = dispatched (console w) @ post_ids (tick_query e w)"
        using publish_each_returned [OF ret] by (simp add: tick_loop_start_dispatched)
      then show ?thesis by (simp add: tick_dispatched_def)
    qed
  qed
  show ?thesis
    by (intro conjI 1 2 3 4 5)
qed

theorem tick_dispatches_query_result_witness:
  "post_ids (tick_query env_order world_three) = [3, 1, 2]
   \<and> tick_dispatched env_order world_three = [3, 1, 2]
   \<and> post_ids (tick_query env_throw world_three) = [3, 1, 2]
   \<and> tick_dispatched env_throw world_three = [3, 1]
   \<and> last (console (processScheduledPosts env_throw world_three))
       = ErrorProcessing (Error ''store unavailable'')"
proof -
  have ids: "post_ids (tick_query env_order world_three) = [3, 1, 2]"
      "post_ids (tick_query env_throw world_three) = [3, 1, 2]"
    by (simp_all add: tick_query_three input_defs)
  have ok: "\<forall>i. post_save_error env_order i = None"
    by (simp add: env_order_def env0_def)
  have a: "tick_dispatched env_order world_three = [3, 1, 2]"
    using tick_dispatches_query_result [of env_order world_three, THEN conjunct2, THEN conjunct1] ok ids by simp
  have start: "tick_loop_start env_throw world_three
      = console_log (FoundPosts 3) (tick (tick world_three))"
    by (simp add: tick_loop_start_def tick_query_three numeral_3_eq_3)
  note th = tick_dispatches_query_result [of env_throw world_three, THEN conjunct2, THEN conjunct2, THEN conjunct2,
      THEN conjunct1, THEN spec [of _ "[(post1\<lparr>post_id := 3\<rparr>, Some user0)]"],
      THEN spec [of _ "(post1, Some user0)"],
      THEN spec [of _ "[(post1\<lparr>post_id := 2\<rparr>, Some user0)]"],
      THEN spec [of _ "Error ''store unavailable''"], THEN mp]
  have b: "tick_dispatched env_throw world_three = [3, 1]"
      "processScheduledPosts env_throw world_three
         = console_log (ErrorProcessing (Error ''store unavailable''))
             (snd (publishPost env_throw (post1, Some user0)
               (snd (publish_each env_throw [(post1\<lparr>post_id := 3\<rparr>, Some user0)]
                  (tick_loop_start env_throw world_three)))))"
    using th run_three by (simp_all add: tick_query_three start input_defs)
  have c: "last (console (processScheduledPosts env_throw world_three))
       = ErrorProcessing (Error ''store unavailable'')"
    by (simp add: b(2) console_log_def)
  show ?thesis
    by (intro conjI ids a b(1) c)
qed

text \<open>
  Claim C3 as stated fails: when the query returns the post 1 twice, the tick hands the id 1
  to \<^verbatim>\<open>publishPost\<close> twice.
\<close>

theorem tick_duplicate_dispatch:
  "post_ids (tick_query env_dup world0) = [1, 1]
   \<and> tick_dispatched env_dup world0 = [1, 1]
   \<and> \<not> distinct (tick_dispatched env_dup world0)"
proof -
  have ok: "\<forall>i. post_save_error env_dup i = None"
    by (simp add: env_dup_def env0_def)
  obtain k where k: "dispatched (console (processScheduledPosts env_dup world0))
          = dispatched (console world0) @ take k (post_ids (tick_query env_dup world0))"
      "(\<forall>i. post_save_error env_dup i = None) \<longrightarrow> k = length (tick_query env_dup world0)"
    using processScheduledPosts_dispatched [of env_dup world0] by (elim exE conjE) (rule that)
  have "k = length (post_ids (tick_query env_dup world0))"
    using k(2) ok by (simp add: length_post_ids)
  then have "k = 2"
    by (simp add: tick_query_dup)
  then have "tick_dispatched env_dup world0 = [1, 1]"
    using k(1) tick_query_dup by (simp add: tick_dispatched_def)
  then show ?thesis
    using tick_query_dup by simp
qed

end
